theory Spec2Isabelle
  imports Main "HOL-Library.AList"
begin

section \<open>Python values, objects and the store\<close>

text \<open>
  The module \<open>gitlab/objects.py\<close> works on plain Python data (the decoded JSON of the
  server) and on objects that refer to each other: an instance holds its managers, a
  manager holds its parent instance. Values are therefore either data or a reference
  into a store of objects. A Python \<open>dict\<close> with string keys is an association list in
  insertion order, read with \<open>map_of\<close> and written with \<open>AList.update\<close>.
\<close>

type_synonym addr = nat

datatype pyval =
    VNone
  | VBool bool
  | VInt int
  | VStr string
  | VList "pyval list"
  | VDict "(string \<times> pyval) list"
  | VRef addr

type_synonym pydict = "(string \<times> pyval) list"

text \<open>
  The exceptions the modelled code raises itself, the ones Python raises on its behalf,
  and \<open>External\<close> for whatever a collaborator outside this module raises (a class name
  and a message). \<open>RecursionError\<close> is Python's bounded call stack: the constructor
  calls itself for nested resources, and the depth it may reach is a parameter.
\<close>

datatype error =
    NotImplementedError
  | GitlabGetError string
  | GitlabDeleteError string
  | AttributeError string
  | KeyError string
  | NameError string
  | TypeError
  | IndexError
  | RecursionError
  | External string string

text \<open>The three values the class attribute \<open>canGet\<close> takes: \<open>False\<close>, \<open>True\<close>, \<open>'from_list'\<close>.\<close>

datatype can_get = CanGetFalse | CanGetTrue | FromList

text \<open>
  The class attributes of \<open>GitlabObject\<close> that the modelled methods read. An entry of
  \<open>managers\<close> is (attribute name, name of the class the manager class wraps as its
  \<open>obj_cls\<close>, parent/child attribute links). \<open>url\<close> is \<open>_url\<close>.
\<close>

record cls =
  cname :: string
  url :: "string option"
  constructorTypes :: "(string \<times> string) list option"
  canGet :: can_get
  canList :: bool
  canCreate :: bool
  canUpdate :: bool
  canDelete :: bool
  requiredCreateAttrs :: "string list"
  optionalCreateAttrs :: "string list"
  requiredUpdateAttrs :: "string list"
  optionalUpdateAttrs :: "string list"
  managers :: "(string \<times> string \<times> (string \<times> string) list) list"
  idAttr :: string

text \<open>
  An object of the store: an instance of a resource class with its \<open>__dict__\<close>, or a
  manager with its \<open>obj_cls\<close>, \<open>gitlab\<close>, \<open>parent\<close> and \<open>args\<close>.
\<close>

datatype hobj =
    Inst cls pydict
  | Mgr cls pyval "addr option" "(string \<times> string) list"

text \<open>A call of a method of the connection object: method name, positional arguments, keyword arguments.\<close>

datatype call = Call string "pyval list" pydict

record state =
  heap :: "addr \<Rightarrow> hobj option"
  next_addr :: addr
  calls :: "call list"

text \<open>The response object of the raw HTTP verbs: \<open>status_code\<close> and what \<open>json()\<close> gives.\<close>

record response =
  status_code :: int
  json_body :: "error + pyval"

text \<open>
  What this module uses and does not define: the module namespace (\<open>globals()\<close>), the
  methods of the connection (\<open>gitlab.Gitlab\<close>), \<open>raise_error_from_response\<close> of
  \<open>gitlab.exceptions\<close> (its third argument is optional), and the Python built-ins
  \<open>str\<close>, \<open>==\<close> and \<open>json.dumps\<close>. The connection's answers may depend on everything
  that happened before (the state, with the calls made so far); only \<open>list\<close> returns
  objects and so may allocate them.
\<close>

record env =
  globals :: "string \<Rightarrow> cls option"
  conn_get :: "state \<Rightarrow> pyval \<Rightarrow> cls \<Rightarrow> pyval \<Rightarrow> pydict \<Rightarrow> error + pyval"
  conn_list :: "state \<Rightarrow> pyval \<Rightarrow> cls \<Rightarrow> pydict \<Rightarrow> (error + pyval) \<times> state"
  conn_create :: "state \<Rightarrow> pyval \<Rightarrow> addr \<Rightarrow> pydict \<Rightarrow> error + pyval"
  conn_update :: "state \<Rightarrow> pyval \<Rightarrow> addr \<Rightarrow> pydict \<Rightarrow> error + pyval"
  conn_delete :: "state \<Rightarrow> pyval \<Rightarrow> pyval \<Rightarrow> pyval \<Rightarrow> pydict \<Rightarrow> error + pyval"
  conn_raw_post :: "state \<Rightarrow> pyval \<Rightarrow> string \<Rightarrow> pydict \<Rightarrow> error + response"
  conn_raw_put :: "state \<Rightarrow> pyval \<Rightarrow> string \<Rightarrow> pydict \<Rightarrow> error + response"
  raise_error_from_response :: "response \<Rightarrow> string \<Rightarrow> int list option \<Rightarrow> error option"
  py_str :: "pyval \<Rightarrow> string"
  py_eq :: "state \<Rightarrow> pyval \<Rightarrow> pyval \<Rightarrow> error + bool"
  json_dumps :: "pydict \<Rightarrow> error + string"

subsection \<open>Attribute access\<close>

text \<open>
  \<open>getattr\<close>, \<open>hasattr\<close>, \<open>setattr\<close> and \<open>del\<close> on an instance, by the instance
  dictionary. The names looked up this way (\<open>id\<close>, \<open>gitlab\<close>, \<open>_from_api\<close>, the
  declared request attributes, the identifier attribute) are not names of class
  attributes or methods in this module, so the class is never consulted for them.
\<close>

definition inst_at :: "state \<Rightarrow> addr \<Rightarrow> (cls \<times> pydict) option" where
  "inst_at s a = (case heap s a of Some (Inst c d) \<Rightarrow> Some (c, d) | _ \<Rightarrow> None)"

definition getattr :: "state \<Rightarrow> addr \<Rightarrow> string \<Rightarrow> error + pyval" where
  "getattr s a k =
     (case inst_at s a of
        None \<Rightarrow> Inl (AttributeError k)
      | Some (c, d) \<Rightarrow> (case map_of d k of None \<Rightarrow> Inl (AttributeError k) | Some v \<Rightarrow> Inr v))"

definition hasattr :: "state \<Rightarrow> addr \<Rightarrow> string \<Rightarrow> bool" where
  "hasattr s a k = (case getattr s a k of Inl _ \<Rightarrow> False | Inr _ \<Rightarrow> True)"

definition setattr :: "addr \<Rightarrow> string \<Rightarrow> pyval \<Rightarrow> state \<Rightarrow> state" where
  "setattr a k v s =
     (case inst_at s a of
        None \<Rightarrow> s
      | Some (c, d) \<Rightarrow> s\<lparr>heap := (heap s)(a \<mapsto> Inst c (AList.update k v d))\<rparr>)"


definition alloc :: "hobj \<Rightarrow> state \<Rightarrow> addr \<times> state" where
  "alloc obj s = (next_addr s, s\<lparr>heap := (heap s)(next_addr s \<mapsto> obj), next_addr := Suc (next_addr s)\<rparr>)"

text \<open>Python truthiness of a value (\<open>if not x\<close>).\<close>

fun truthy :: "pyval \<Rightarrow> bool" where
  "truthy VNone = False"
| "truthy (VBool b) = b"
| "truthy (VInt i) = (i \<noteq> 0)"
| "truthy (VStr s) = (s \<noteq> [])"
| "truthy (VList xs) = (xs \<noteq> [])"
| "truthy (VDict d) = (d \<noteq> [])"
| "truthy (VRef a) = True"

subsection \<open>Calls of the connection\<close>

definition log_call :: "call \<Rightarrow> state \<Rightarrow> state" where
  "log_call c s = s\<lparr>calls := calls s @ [c]\<rparr>"

definition gl_get :: "env \<Rightarrow> pyval \<Rightarrow> cls \<Rightarrow> pyval \<Rightarrow> pydict \<Rightarrow> state \<Rightarrow> (error + pyval) \<times> state" where
  "gl_get e gl c i kw s = (conn_get e s gl c i kw, log_call (Call ''get'' [gl, VStr (cname c), i] kw) s)"

definition gl_list :: "env \<Rightarrow> pyval \<Rightarrow> cls \<Rightarrow> pydict \<Rightarrow> state \<Rightarrow> (error + pyval) \<times> state" where
  "gl_list e gl c kw s =
     (case conn_list e s gl c kw of
        (r, s') \<Rightarrow> (r, s'\<lparr>calls := calls s @ [Call ''list'' [gl, VStr (cname c)] kw]\<rparr>))"

definition gl_create :: "env \<Rightarrow> pyval \<Rightarrow> addr \<Rightarrow> pydict \<Rightarrow> state \<Rightarrow> (error + pyval) \<times> state" where
  "gl_create e gl a kw s = (conn_create e s gl a kw, log_call (Call ''create'' [gl, VRef a] kw) s)"

definition gl_update :: "env \<Rightarrow> pyval \<Rightarrow> addr \<Rightarrow> pydict \<Rightarrow> state \<Rightarrow> (error + pyval) \<times> state" where
  "gl_update e gl a kw s = (conn_update e s gl a kw, log_call (Call ''update'' [gl, VRef a] kw) s)"

definition gl_delete :: "env \<Rightarrow> pyval \<Rightarrow> pyval \<Rightarrow> pyval \<Rightarrow> pydict \<Rightarrow> state \<Rightarrow> (error + pyval) \<times> state" where
  "gl_delete e gl obj i kw s = (conn_delete e s gl obj i kw, log_call (Call ''delete'' [gl, obj, i] kw) s)"



section \<open>GitlabObject\<close>

subsection \<open>list and delete\<close>

text \<open>
  \<open>GitlabObject.list\<close> (a class method): two guards, then the connection's \<open>list\<close>.
  \<open>not cls._url\<close> holds for \<open>None\<close> and for the empty string.
\<close>

definition cls_list :: "env \<Rightarrow> cls \<Rightarrow> pyval \<Rightarrow> pydict \<Rightarrow> state \<Rightarrow> (error + pyval) \<times> state" where
  "cls_list e c gl kw s =
     (if \<not> canList c then (Inl NotImplementedError, s)
      else if url c = None \<or> url c = Some [] then (Inl NotImplementedError, s)
      else gl_list e gl c kw s)"


subsection \<open>The constructor\<close>

text \<open>
  \<open>_get_object\<close>, \<open>_set_from_dict\<close> and \<open>__init__\<close> call each other: a field named in
  \<open>_constructorTypes\<close> is built by the constructor of the class of that name, found in
  the module namespace. The helpers take that constructor as the parameter \<open>mk\<close>.
\<close>

type_synonym ctor = "cls \<Rightarrow> pyval \<Rightarrow> pyval \<Rightarrow> pydict \<Rightarrow> state \<Rightarrow> (error + addr) \<times> state"

definition get_object :: "ctor \<Rightarrow> env \<Rightarrow> addr \<Rightarrow> cls \<Rightarrow> string \<Rightarrow> pyval \<Rightarrow> state \<Rightarrow> (error + pyval) \<times> state" where
  "get_object mk e a c k v s =
     (case constructorTypes c of
        None \<Rightarrow> (Inr v, s)
      | Some ct \<Rightarrow>
          (case map_of ct k of
             None \<Rightarrow> (Inr v, s)
           | Some n \<Rightarrow>
               (case globals e n of
                  None \<Rightarrow> (Inl (KeyError n), s)
                | Some c' \<Rightarrow>
                    (case getattr s a ''gitlab'' of
                       Inl err \<Rightarrow> (Inl err, s)
                     | Inr gl \<Rightarrow>
                         (case mk c' gl v [] s of
                            (Inl err, s') \<Rightarrow> (Inl err, s')
                          | (Inr b, s') \<Rightarrow> (Inr (VRef b), s'))))))"

text \<open>\<open>self.__dict__[k].append(x)\<close>\<close>

definition list_append :: "addr \<Rightarrow> string \<Rightarrow> pyval \<Rightarrow> state \<Rightarrow> state" where
  "list_append a k x s =
     (case getattr s a k of Inr (VList xs) \<Rightarrow> setattr a k (VList (xs @ [x])) s | _ \<Rightarrow> s)"

fun set_list :: "ctor \<Rightarrow> env \<Rightarrow> addr \<Rightarrow> cls \<Rightarrow> string \<Rightarrow> pyval list \<Rightarrow> state \<Rightarrow> (error + unit) \<times> state" where
  "set_list mk e a c k [] s = (Inr (), s)"
| "set_list mk e a c k (i # rest) s =
     (case get_object mk e a c k i s of
        (Inl err, s') \<Rightarrow> (Inl err, s')
      | (Inr x, s') \<Rightarrow> set_list mk e a c k rest (list_append a k x s'))"

text \<open>The body of the loop of \<open>_set_from_dict\<close> for one item.\<close>

definition set_item :: "ctor \<Rightarrow> env \<Rightarrow> addr \<Rightarrow> cls \<Rightarrow> string \<Rightarrow> pyval \<Rightarrow> state \<Rightarrow> (error + unit) \<times> state" where
  "set_item mk e a c k v s =
     (case v of
        VList vs \<Rightarrow> set_list mk e a c k vs (setattr a k (VList []) s)
      | VNone \<Rightarrow> (Inr (), setattr a k VNone s)
      | _ \<Rightarrow>
          (case get_object mk e a c k v s of
             (Inl err, s') \<Rightarrow> (Inl err, s')
           | (Inr x, s') \<Rightarrow> (Inr (), setattr a k x s')))"

fun set_items :: "ctor \<Rightarrow> env \<Rightarrow> addr \<Rightarrow> cls \<Rightarrow> pydict \<Rightarrow> state \<Rightarrow> (error + unit) \<times> state" where
  "set_items mk e a c [] s = (Inr (), s)"
| "set_items mk e a c ((k, v) # kvs) s =
     (case set_item mk e a c k v s of
        (Inl err, s') \<Rightarrow> (Inl err, s')
      | (Inr u, s') \<Rightarrow> set_items mk e a c kvs s')"

text \<open>\<open>_set_from_dict\<close>: \<open>data.items()\<close> exists for a dict only.\<close>

definition set_from_dict :: "ctor \<Rightarrow> env \<Rightarrow> addr \<Rightarrow> cls \<Rightarrow> pyval \<Rightarrow> state \<Rightarrow> (error + unit) \<times> state" where
  "set_from_dict mk e a c data s =
     (case data of
        VDict kvs \<Rightarrow> set_items mk e a c kvs s
      | _ \<Rightarrow> (Inl (AttributeError ''items''), s))"

text \<open>\<open>for k, v in kwargs.items(): self.__dict__[k] = v\<close>\<close>

fun set_kwargs :: "addr \<Rightarrow> pydict \<Rightarrow> state \<Rightarrow> state" where
  "set_kwargs a [] s = s"
| "set_kwargs a ((k, v) # kw) s = set_kwargs a kw (setattr a k v s)"

text \<open>
  \<open>_set_managers\<close>. The class statement names the manager class; here the entry names the
  class that manager class wraps, found in the module namespace.
\<close>

fun set_managers :: "env \<Rightarrow> addr \<Rightarrow> (string \<times> string \<times> (string \<times> string) list) list \<Rightarrow> state \<Rightarrow> (error + unit) \<times> state" where
  "set_managers e a [] s = (Inr (), s)"
| "set_managers e a ((var, n, attrs) # ms) s =
     (case globals e n of
        None \<Rightarrow> (Inl (KeyError n), s)
      | Some oc \<Rightarrow>
          (case getattr s a ''gitlab'' of
             Inl err \<Rightarrow> (Inl err, s)
           | Inr gl \<Rightarrow>
               (case alloc (Mgr oc gl (Some a) attrs) s of
                  (m, s') \<Rightarrow> set_managers e a ms (setattr a var (VRef m) s'))))"

text \<open>\<open>data is None or isinstance(data, six.integer_types) or isinstance(data, six.string_types)\<close>; a bool is an int.\<close>

fun is_id :: "pyval \<Rightarrow> bool" where
  "is_id VNone = True"
| "is_id (VBool b) = True"
| "is_id (VInt i) = True"
| "is_id (VStr s) = True"
| "is_id v = False"

text \<open>The first part of \<open>__init__\<close>: the data to build from, fetched when an id was given.\<close>

definition init_data :: "env \<Rightarrow> addr \<Rightarrow> cls \<Rightarrow> pyval \<Rightarrow> pydict \<Rightarrow> state \<Rightarrow> (error + pyval) \<times> state" where
  "init_data e a c data kw s =
     (if is_id data then
        (if canGet c = CanGetFalse then (Inl NotImplementedError, s)
         else (case getattr s a ''gitlab'' of
                 Inl err \<Rightarrow> (Inl err, s)
               | Inr gl \<Rightarrow>
                   (case gl_get e gl c data kw s of
                      (Inl err, s') \<Rightarrow> (Inl err, s')
                    | (Inr d, s') \<Rightarrow> (Inr d, setattr a ''_from_api'' (VBool True) s'))))
      else (Inr data, s))"

text \<open>The last part of \<open>__init__\<close>, after \<open>_set_from_dict\<close>: keyword arguments, the default of \<open>id\<close>, the managers.\<close>

definition init_finish :: "env \<Rightarrow> addr \<Rightarrow> cls \<Rightarrow> pydict \<Rightarrow> state \<Rightarrow> (error + addr) \<times> state" where
  "init_finish e a c kw s =
     (let s1 = set_kwargs a kw s;
          s2 = (if hasattr s1 a ''id'' then s1 else setattr a ''id'' VNone s1)
      in case set_managers e a (managers c) s2 of
           (Inl err, s3) \<Rightarrow> (Inl err, s3)
         | (Inr u, s3) \<Rightarrow> (Inr a, s3))"

text \<open>
  \<open>GitlabObject.__init__\<close> of a new object of class \<open>c\<close>, with the call depth still
  available as first argument. The result is the address of the new instance.
\<close>

primrec init :: "nat \<Rightarrow> env \<Rightarrow> cls \<Rightarrow> pyval \<Rightarrow> pyval \<Rightarrow> pydict \<Rightarrow> state \<Rightarrow> (error + addr) \<times> state" where
  "init 0 e c gl data kw s = (Inl RecursionError, s)"
| "init (Suc n) e c gl data kw s =
     (case alloc (Inst c []) s of
        (a, s0) \<Rightarrow>
          (case init_data e a c data kw (setattr a ''gitlab'' gl (setattr a ''_from_api'' (VBool False) s0)) of
             (Inl err, s1) \<Rightarrow> (Inl err, s1)
           | (Inr d, s1) \<Rightarrow>
               (case set_from_dict (init n e) e a c d s1 of
                  (Inl err, s2) \<Rightarrow> (Inl err, s2)
                | (Inr u, s2) \<Rightarrow> init_finish e a c kw s2)))"

subsection \<open>save, create, get\<close>

text \<open>\<open>_create\<close>\<close>

definition obj_create :: "nat \<Rightarrow> env \<Rightarrow> addr \<Rightarrow> pydict \<Rightarrow> state \<Rightarrow> (error + unit) \<times> state" where
  "obj_create n e a kw s =
     (case inst_at s a of
        None \<Rightarrow> (Inl (AttributeError ''canCreate''), s)
      | Some (c, d) \<Rightarrow>
          if \<not> canCreate c then (Inl NotImplementedError, s)
          else (case getattr s a ''gitlab'' of
                  Inl err \<Rightarrow> (Inl err, s)
                | Inr gl \<Rightarrow>
                    (case gl_create e gl a kw s of
                       (Inl err, s1) \<Rightarrow> (Inl err, s1)
                     | (Inr j, s1) \<Rightarrow>
                         (case set_from_dict (init n e) e a c j s1 of
                            (Inl err, s2) \<Rightarrow> (Inl err, s2)
                          | (Inr u, s2) \<Rightarrow> (Inr (), setattr a ''_from_api'' (VBool True) s2)))))"

text \<open>\<open>GitlabObject._update\<close>\<close>

definition GitlabObject_update :: "nat \<Rightarrow> env \<Rightarrow> addr \<Rightarrow> pydict \<Rightarrow> state \<Rightarrow> (error + unit) \<times> state" where
  "GitlabObject_update n e a kw s =
     (case inst_at s a of
        None \<Rightarrow> (Inl (AttributeError ''canUpdate''), s)
      | Some (c, d) \<Rightarrow>
          if \<not> canUpdate c then (Inl NotImplementedError, s)
          else (case getattr s a ''gitlab'' of
                  Inl err \<Rightarrow> (Inl err, s)
                | Inr gl \<Rightarrow>
                    (case gl_update e gl a kw s of
                       (Inl err, s1) \<Rightarrow> (Inl err, s1)
                     | (Inr j, s1) \<Rightarrow> set_from_dict (init n e) e a c j s1)))"

text \<open>\<open>self._update\<close>: \<open>GroupMember\<close> overrides it, setting \<open>user_id\<close> from \<open>id\<close> first.\<close>

definition obj_update :: "nat \<Rightarrow> env \<Rightarrow> addr \<Rightarrow> pydict \<Rightarrow> state \<Rightarrow> (error + unit) \<times> state" where
  "obj_update n e a kw s =
     (case inst_at s a of
        None \<Rightarrow> (Inl (AttributeError ''_update''), s)
      | Some (c, d) \<Rightarrow>
          if cname c = ''GroupMember'' then
            (case getattr s a ''id'' of
               Inl err \<Rightarrow> (Inl err, s)
             | Inr i \<Rightarrow> GitlabObject_update n e a kw (setattr a ''user_id'' i s))
          else GitlabObject_update n e a kw s)"

definition save :: "nat \<Rightarrow> env \<Rightarrow> addr \<Rightarrow> pydict \<Rightarrow> state \<Rightarrow> (error + unit) \<times> state" where
  "save n e a kw s =
     (case getattr s a ''_from_api'' of
        Inl err \<Rightarrow> (Inl err, s)
      | Inr f \<Rightarrow> if truthy f then obj_update n e a kw s else obj_create n e a kw s)"

text \<open>\<open>GitlabObject.create\<close> (a class method)\<close>

definition cls_create :: "nat \<Rightarrow> env \<Rightarrow> cls \<Rightarrow> pyval \<Rightarrow> pyval \<Rightarrow> pydict \<Rightarrow> state \<Rightarrow> (error + pyval) \<times> state" where
  "cls_create n e c gl data kw s =
     (if \<not> canCreate c then (Inl NotImplementedError, s)
      else (case init n e c gl data kw s of
              (Inl err, s1) \<Rightarrow> (Inl err, s1)
            | (Inr a, s1) \<Rightarrow>
                (case save n e a [] s1 of
                   (Inl err, s2) \<Rightarrow> (Inl err, s2)
                 | (Inr u, s2) \<Rightarrow> (Inr (VRef a), s2))))"

text \<open>What a \<open>for\<close> loop runs over: the elements of a list, the keys of a dict, the characters of a string.\<close>

fun py_iter :: "pyval \<Rightarrow> error + pyval list" where
  "py_iter (VList xs) = Inr xs"
| "py_iter (VDict d) = Inr (map (\<lambda>kv. VStr (fst kv)) d)"
| "py_iter (VStr cs) = Inr (map (\<lambda>ch. VStr [ch]) cs)"
| "py_iter v = Inl TypeError"

text \<open>
  The loop of \<open>get\<close> for \<open>canGet == 'from_list'\<close>: \<open>obj.idAttr\<close> is the class attribute
  of the listed object, \<open>getattr(obj, obj.idAttr)\<close> its identifier.
\<close>

fun scan_list :: "env \<Rightarrow> state \<Rightarrow> pyval \<Rightarrow> pyval list \<Rightarrow> error + pyval" where
  "scan_list e s i [] = Inl (GitlabGetError ''Object not found'')"
| "scan_list e s i (obj # objs) =
     (case obj of
        VRef a \<Rightarrow>
          (case inst_at s a of
             None \<Rightarrow> Inl (AttributeError ''idAttr'')
           | Some (c, d) \<Rightarrow>
               (case getattr s a (idAttr c) of
                  Inl err \<Rightarrow> Inl err
                | Inr obj_id \<Rightarrow>
                    if py_str e obj_id = py_str e i then Inr obj else scan_list e s i objs))
      | _ \<Rightarrow> Inl (AttributeError ''idAttr''))"

text \<open>\<open>GitlabObject.get\<close> (a class method)\<close>

definition cls_get :: "nat \<Rightarrow> env \<Rightarrow> cls \<Rightarrow> pyval \<Rightarrow> pyval \<Rightarrow> pydict \<Rightarrow> state \<Rightarrow> (error + pyval) \<times> state" where
  "cls_get n e c gl i kw s =
     (case canGet c of
        CanGetFalse \<Rightarrow> (Inl NotImplementedError, s)
      | CanGetTrue \<Rightarrow>
          (case init n e c gl i kw s of
             (Inl err, s1) \<Rightarrow> (Inl err, s1)
           | (Inr a, s1) \<Rightarrow> (Inr (VRef a), s1))
      | FromList \<Rightarrow>
          (case cls_list e c gl kw s of
             (Inl err, s1) \<Rightarrow> (Inl err, s1)
           | (Inr objs, s1) \<Rightarrow>
               (case py_iter objs of
                  Inl err \<Rightarrow> (Inl err, s1)
                | Inr os \<Rightarrow> (scan_list e s1 i os, s1))))"

subsection \<open>Serialization of the request body\<close>


fun join :: "string \<Rightarrow> string list \<Rightarrow> string" where
  "join sep [] = []"
| "join sep [x] = x"
| "join sep (x # y # ys) = x @ sep @ join sep (y # ys)"






subsection \<open>Comparison\<close>

definition is_manager :: "state \<Rightarrow> pyval \<Rightarrow> bool" where
  "is_manager s v =
     (case v of
        VRef a \<Rightarrow> (case heap s a of Some (Mgr oc gl p args) \<Rightarrow> True | _ \<Rightarrow> False)
      | _ \<Rightarrow> False)"

text \<open>
  The comprehension of \<open>as_dict\<close> over \<open>self.__dict__\<close>: the test is
  \<open>not isinstance(v, BaseManager) and not k[0] == '_'\<close>, and \<open>k[0]\<close> of an empty
  name raises.
\<close>

fun as_dict_items :: "state \<Rightarrow> pydict \<Rightarrow> error + pydict" where
  "as_dict_items s [] = Inr []"
| "as_dict_items s ((k, v) # kvs) =
     (if is_manager s v then as_dict_items s kvs
      else (case k of
              [] \<Rightarrow> Inl IndexError
            | ch # rest \<Rightarrow>
                if ch = CHR ''_'' then as_dict_items s kvs
                else (case as_dict_items s kvs of Inl err \<Rightarrow> Inl err | Inr r \<Rightarrow> Inr ((k, v) # r))))"

definition as_dict :: "state \<Rightarrow> addr \<Rightarrow> error + pydict" where
  "as_dict s a =
     (case inst_at s a of
        None \<Rightarrow> Inl (AttributeError ''as_dict'')
      | Some (c, d) \<Rightarrow> as_dict_items s d)"

text \<open>\<open>type(other) is type(self)\<close> for the instance at \<open>a\<close> and any value \<open>other\<close>.\<close>

definition same_type :: "state \<Rightarrow> addr \<Rightarrow> pyval \<Rightarrow> bool" where
  "same_type s a other =
     (case other of
        VRef b \<Rightarrow>
          (case (inst_at s a, inst_at s b) of
             (Some (c, d), Some (c', d')) \<Rightarrow> c = c'
           | _ \<Rightarrow> False)
      | _ \<Rightarrow> False)"

text \<open>\<open>GitlabObject.__eq__\<close>\<close>

definition GitlabObject_eq :: "env \<Rightarrow> state \<Rightarrow> addr \<Rightarrow> pyval \<Rightarrow> error + bool" where
  "GitlabObject_eq e s a other =
     (case other of
        VRef b \<Rightarrow>
          if same_type s a other then
            (case as_dict s a of
               Inl err \<Rightarrow> Inl err
             | Inr x \<Rightarrow>
                 (case as_dict s b of
                    Inl err \<Rightarrow> Inl err
                  | Inr y \<Rightarrow> py_eq e s (VDict x) (VDict y)))
          else Inr False
      | _ \<Rightarrow> Inr False)"

text \<open>\<open>User.__eq__\<close>\<close>

definition User_eq :: "env \<Rightarrow> state \<Rightarrow> addr \<Rightarrow> pyval \<Rightarrow> error + bool" where
  "User_eq e s a other =
     (case other of
        VRef b \<Rightarrow>
          if same_type s a other then
            (case as_dict s a of
               Inl err \<Rightarrow> Inl err
             | Inr selfdict \<Rightarrow>
                 (case as_dict s b of
                    Inl err \<Rightarrow> Inl err
                  | Inr otherdict \<Rightarrow>
                      py_eq e s (VDict (AList.delete ''password'' selfdict))
                                (VDict (AList.delete ''password'' otherdict))))
          else Inr False
      | _ \<Rightarrow> Inr False)"

text \<open>\<open>self.__eq__(other)\<close>: the method of the class of \<open>self\<close>; only \<open>User\<close> overrides it.\<close>

definition obj_eq :: "env \<Rightarrow> state \<Rightarrow> addr \<Rightarrow> pyval \<Rightarrow> error + bool" where
  "obj_eq e s a other =
     (case inst_at s a of
        None \<Rightarrow> Inl (AttributeError ''__eq__'')
      | Some (c, d) \<Rightarrow> if cname c = ''User'' then User_eq e s a other else GitlabObject_eq e s a other)"

text \<open>\<open>GitlabObject.__ne__\<close>\<close>

definition obj_ne :: "env \<Rightarrow> state \<Rightarrow> addr \<Rightarrow> pyval \<Rightarrow> error + bool" where
  "obj_ne e s a other = (case obj_eq e s a other of Inl err \<Rightarrow> Inl err | Inr b \<Rightarrow> Inr (\<not> b))"

section \<open>BaseManager\<close>

definition mgr_at :: "state \<Rightarrow> addr \<Rightarrow> (cls \<times> pyval \<times> addr option \<times> (string \<times> string) list) option" where
  "mgr_at s m = (case heap s m of Some (Mgr oc gl p args) \<Rightarrow> Some (oc, gl, p, args) | _ \<Rightarrow> None)"

text \<open>\<open>args.setdefault(attr, value)\<close>\<close>

definition setdefault :: "string \<Rightarrow> pyval \<Rightarrow> pydict \<Rightarrow> pydict" where
  "setdefault k v d = (case map_of d k of None \<Rightarrow> d @ [(k, v)] | Some w \<Rightarrow> d)"

text \<open>The loop of \<open>_set_parent_args\<close>: the value is read from the parent before \<open>setdefault\<close> looks at the key.\<close>

fun parent_args :: "state \<Rightarrow> addr \<Rightarrow> (string \<times> string) list \<Rightarrow> pydict \<Rightarrow> error + pydict" where
  "parent_args s p [] args = Inr args"
| "parent_args s p ((attr, parent_attr) # rest) args =
     (case getattr s p parent_attr of
        Inl err \<Rightarrow> Inl err
      | Inr v \<Rightarrow> parent_args s p rest (setdefault attr v args))"

text \<open>\<open>BaseManager._set_parent_args\<close> of the manager at \<open>m\<close>\<close>

definition set_parent_args :: "state \<Rightarrow> addr \<Rightarrow> pydict \<Rightarrow> error + pydict" where
  "set_parent_args s m kwargs =
     (case mgr_at s m of
        None \<Rightarrow> Inl (AttributeError ''_set_parent_args'')
      | Some (oc, gl, parent, margs) \<Rightarrow>
          (case parent of
             None \<Rightarrow> Inr kwargs
           | Some p \<Rightarrow> parent_args s p margs kwargs))"

definition mgr_get :: "nat \<Rightarrow> env \<Rightarrow> addr \<Rightarrow> pyval \<Rightarrow> pydict \<Rightarrow> state \<Rightarrow> (error + pyval) \<times> state" where
  "mgr_get n e m i kwargs s =
     (case mgr_at s m of
        None \<Rightarrow> (Inl (AttributeError ''get''), s)
      | Some (oc, gl, parent, margs) \<Rightarrow>
          (case set_parent_args s m kwargs of
             Inl err \<Rightarrow> (Inl err, s)
           | Inr args \<Rightarrow>
               if canGet oc = CanGetFalse then (Inl NotImplementedError, s)
               else cls_get n e oc gl i args s))"

definition mgr_list :: "env \<Rightarrow> addr \<Rightarrow> pydict \<Rightarrow> state \<Rightarrow> (error + pyval) \<times> state" where
  "mgr_list e m kwargs s =
     (case mgr_at s m of
        None \<Rightarrow> (Inl (AttributeError ''list''), s)
      | Some (oc, gl, parent, margs) \<Rightarrow>
          (case set_parent_args s m kwargs of
             Inl err \<Rightarrow> (Inl err, s)
           | Inr args \<Rightarrow>
               if \<not> canList oc then (Inl NotImplementedError, s)
               else cls_list e oc gl args s))"

definition mgr_create :: "nat \<Rightarrow> env \<Rightarrow> addr \<Rightarrow> pyval \<Rightarrow> pydict \<Rightarrow> state \<Rightarrow> (error + pyval) \<times> state" where
  "mgr_create n e m data kwargs s =
     (case mgr_at s m of
        None \<Rightarrow> (Inl (AttributeError ''create''), s)
      | Some (oc, gl, parent, margs) \<Rightarrow>
          (case set_parent_args s m kwargs of
             Inl err \<Rightarrow> (Inl err, s)
           | Inr args \<Rightarrow>
               if \<not> canCreate oc then (Inl NotImplementedError, s)
               else cls_create n e oc gl data args s))"

definition mgr_delete :: "env \<Rightarrow> addr \<Rightarrow> pyval \<Rightarrow> pydict \<Rightarrow> state \<Rightarrow> (error + pyval) \<times> state" where
  "mgr_delete e m i kwargs s =
     (case mgr_at s m of
        None \<Rightarrow> (Inl (AttributeError ''delete''), s)
      | Some (oc, gl, parent, margs) \<Rightarrow>
          (case set_parent_args s m kwargs of
             Inl err \<Rightarrow> (Inl err, s)
           | Inr args \<Rightarrow>
               if \<not> canDelete oc then (Inl NotImplementedError, s)
               else (case gl_delete e gl (VStr (cname oc)) i args s of
                       (Inl err, s1) \<Rightarrow> (Inl err, s1)
                     | (Inr r, s1) \<Rightarrow> (Inr VNone, s1))))"

section \<open>Methods of single resources\<close>




section \<open>The resource classes of the module\<close>

text \<open>
  The class attributes of \<open>GitlabObject\<close>, and every subclass as the base class with the
  attributes its class statement sets.
\<close>

definition GitlabObject :: cls where
  "GitlabObject = \<lparr>
     cname = ''GitlabObject'',
     url = None,
     constructorTypes = None,
     canGet = CanGetTrue,
     canList = True,
     canCreate = True,
     canUpdate = True,
     canDelete = True,
     requiredCreateAttrs = [],
     optionalCreateAttrs = [],
     requiredUpdateAttrs = [],
     optionalUpdateAttrs = [],
     managers = [],
     idAttr = ''id''\<rparr>"

definition UserKey :: cls where
  "UserKey = GitlabObject\<lparr>
     cname := ''UserKey'',
     url := Some ''/users/%(user_id)s/keys'',
     canGet := FromList,
     canUpdate := False,
     requiredCreateAttrs := [''title'', ''key'']\<rparr>"

definition User :: cls where
  "User = GitlabObject\<lparr>
     cname := ''User'',
     url := Some ''/users'',
     requiredCreateAttrs := [''email'', ''username'', ''name'', ''password''],
     optionalCreateAttrs := [''skype'', ''linkedin'', ''twitter'', ''projects_limit'', ''extern_uid'', ''provider'', ''bio'', ''admin'', ''can_create_group'', ''website_url'', ''confirm'', ''external''],
     requiredUpdateAttrs := [''email'', ''username'', ''name''],
     optionalUpdateAttrs := [''password'', ''skype'', ''linkedin'', ''twitter'', ''projects_limit'', ''extern_uid'', ''provider'', ''bio'', ''admin'', ''can_create_group'', ''website_url'', ''confirm'', ''external''],
     managers := [(''keys'', ''UserKey'', [(''user_id'', ''id'')])]\<rparr>"

definition CurrentUserKey :: cls where
  "CurrentUserKey = GitlabObject\<lparr>
     cname := ''CurrentUserKey'',
     url := Some ''/user/keys'',
     canUpdate := False,
     requiredCreateAttrs := [''title'', ''key'']\<rparr>"

definition CurrentUser :: cls where
  "CurrentUser = GitlabObject\<lparr>
     cname := ''CurrentUser'',
     url := Some ''/user'',
     canList := False,
     canCreate := False,
     canUpdate := False,
     canDelete := False,
     managers := [(''keys'', ''CurrentUserKey'', [(''user_id'', ''id'')])]\<rparr>"

definition ApplicationSettings :: cls where
  "ApplicationSettings = GitlabObject\<lparr>
     cname := ''ApplicationSettings'',
     url := Some ''/application/settings'',
     canList := False,
     canCreate := False,
     canDelete := False,
     optionalUpdateAttrs := [''after_sign_out_path'', ''default_branch_protection'', ''default_project_visibility'', ''default_projects_limit'', ''default_snippet_visibility'', ''gravatar_enabled'', ''home_page_url'', ''restricted_signup_domains'', ''restricted_visibility_levels'', ''session_expire_delay'', ''sign_in_text'', ''signin_enabled'', ''signup_enabled'', ''twitter_sharing_enabled'', ''user_oauth_applications'']\<rparr>"

definition GroupMember :: cls where
  "GroupMember = GitlabObject\<lparr>
     cname := ''GroupMember'',
     url := Some ''/groups/%(group_id)s/members'',
     canGet := FromList,
     requiredCreateAttrs := [''access_level'', ''user_id''],
     requiredUpdateAttrs := [''access_level'']\<rparr>"

definition Group :: cls where
  "Group = GitlabObject\<lparr>
     cname := ''Group'',
     url := Some ''/groups'',
     constructorTypes := Some [(''projects'', ''Project'')],
     canUpdate := False,
     requiredCreateAttrs := [''name'', ''path''],
     optionalCreateAttrs := [''description'', ''visibility_level''],
     managers := [(''members'', ''GroupMember'', [(''group_id'', ''id'')])]\<rparr>"

definition Hook :: cls where
  "Hook = GitlabObject\<lparr>
     cname := ''Hook'',
     url := Some ''/hooks'',
     canUpdate := False,
     requiredCreateAttrs := [''url'']\<rparr>"

definition Issue :: cls where
  "Issue = GitlabObject\<lparr>
     cname := ''Issue'',
     url := Some ''/issues'',
     constructorTypes := Some [(''author'', ''User''), (''assignee'', ''User''), (''milestone'', ''ProjectMilestone'')],
     canGet := FromList,
     canCreate := False,
     canUpdate := False,
     canDelete := False\<rparr>"

definition License :: cls where
  "License = GitlabObject\<lparr>
     cname := ''License'',
     url := Some ''/licenses'',
     canCreate := False,
     canUpdate := False,
     canDelete := False,
     idAttr := ''key''\<rparr>"

definition ProjectBranch :: cls where
  "ProjectBranch = GitlabObject\<lparr>
     cname := ''ProjectBranch'',
     url := Some ''/projects/%(project_id)s/repository/branches'',
     constructorTypes := Some [(''author'', ''User''), (''committer'', ''User'')],
     canUpdate := False,
     requiredCreateAttrs := [''branch_name'', ''ref''],
     idAttr := ''name''\<rparr>"

definition ProjectBuild :: cls where
  "ProjectBuild = GitlabObject\<lparr>
     cname := ''ProjectBuild'',
     url := Some ''/projects/%(project_id)s/builds'',
     constructorTypes := Some [(''user'', ''User''), (''commit'', ''ProjectCommit'')],
     canCreate := False,
     canUpdate := False,
     canDelete := False\<rparr>"

definition ProjectCommit :: cls where
  "ProjectCommit = GitlabObject\<lparr>
     cname := ''ProjectCommit'',
     url := Some ''/projects/%(project_id)s/repository/commits'',
     canCreate := False,
     canUpdate := False,
     canDelete := False\<rparr>"

definition ProjectCommitStatus :: cls where
  "ProjectCommitStatus = GitlabObject\<lparr>
     cname := ''ProjectCommitStatus'',
     url := Some ''/projects/%(project_id)s/statuses/%(commit_id)s'',
     canUpdate := False,
     canDelete := False,
     requiredCreateAttrs := [''state''],
     optionalCreateAttrs := [''description'', ''name'', ''ref'', ''target_url'']\<rparr>"

definition ProjectKey :: cls where
  "ProjectKey = GitlabObject\<lparr>
     cname := ''ProjectKey'',
     url := Some ''/projects/%(project_id)s/keys'',
     canUpdate := False,
     requiredCreateAttrs := [''title'', ''key'']\<rparr>"

definition ProjectEvent :: cls where
  "ProjectEvent = GitlabObject\<lparr>
     cname := ''ProjectEvent'',
     url := Some ''/projects/%(project_id)s/events'',
     canGet := FromList,
     canCreate := False,
     canUpdate := False,
     canDelete := False\<rparr>"

definition ProjectFork :: cls where
  "ProjectFork = GitlabObject\<lparr>
     cname := ''ProjectFork'',
     url := Some ''/projects/fork/%(project_id)s'',
     canGet := CanGetFalse,
     canList := False,
     canUpdate := False,
     canDelete := False\<rparr>"

definition ProjectHook :: cls where
  "ProjectHook = GitlabObject\<lparr>
     cname := ''ProjectHook'',
     url := Some ''/projects/%(project_id)s/hooks'',
     requiredCreateAttrs := [''url''],
     optionalCreateAttrs := [''push_events'', ''issues_events'', ''merge_requests_events'', ''tag_push_events'', ''build_events'', ''enable_ssl_verification'']\<rparr>"

definition ProjectIssueNote :: cls where
  "ProjectIssueNote = GitlabObject\<lparr>
     cname := ''ProjectIssueNote'',
     url := Some ''/projects/%(project_id)s/issues/%(issue_id)s/notes'',
     constructorTypes := Some [(''author'', ''User'')],
     canDelete := False,
     requiredCreateAttrs := [''body'']\<rparr>"

definition ProjectIssue :: cls where
  "ProjectIssue = GitlabObject\<lparr>
     cname := ''ProjectIssue'',
     url := Some ''/projects/%(project_id)s/issues/'',
     constructorTypes := Some [(''author'', ''User''), (''assignee'', ''User''), (''milestone'', ''ProjectMilestone'')],
     requiredCreateAttrs := [''title''],
     optionalCreateAttrs := [''description'', ''assignee_id'', ''milestone_id'', ''labels'', ''state_event''],
     managers := [(''notes'', ''ProjectIssueNote'', [(''project_id'', ''project_id''), (''issue_id'', ''id'')])]\<rparr>"

definition ProjectMember :: cls where
  "ProjectMember = GitlabObject\<lparr>
     cname := ''ProjectMember'',
     url := Some ''/projects/%(project_id)s/members'',
     requiredCreateAttrs := [''access_level'', ''user_id'']\<rparr>"

definition ProjectNote :: cls where
  "ProjectNote = GitlabObject\<lparr>
     cname := ''ProjectNote'',
     url := Some ''/projects/%(project_id)s/notes'',
     constructorTypes := Some [(''author'', ''User'')],
     canUpdate := False,
     canDelete := False,
     requiredCreateAttrs := [''body'']\<rparr>"

definition ProjectTagRelease :: cls where
  "ProjectTagRelease = GitlabObject\<lparr>
     cname := ''ProjectTagRelease'',
     url := Some ''/projects/%(project_id)s/repository/tags/%(tag_name)/release'',
     canList := False,
     canDelete := False,
     requiredCreateAttrs := [''description'']\<rparr>"

definition ProjectTag :: cls where
  "ProjectTag = GitlabObject\<lparr>
     cname := ''ProjectTag'',
     url := Some ''/projects/%(project_id)s/repository/tags'',
     constructorTypes := Some [(''release'', ''ProjectTagRelease''), (''commit'', ''ProjectCommit'')],
     canGet := FromList,
     canUpdate := False,
     requiredCreateAttrs := [''tag_name'', ''ref''],
     optionalCreateAttrs := [''message''],
     idAttr := ''name''\<rparr>"

definition ProjectMergeRequestNote :: cls where
  "ProjectMergeRequestNote = GitlabObject\<lparr>
     cname := ''ProjectMergeRequestNote'',
     url := Some ''/projects/%(project_id)s/merge_requests/%(merge_request_id)s/notes'',
     constructorTypes := Some [(''author'', ''User'')],
     canDelete := False,
     requiredCreateAttrs := [''body'']\<rparr>"

definition ProjectMergeRequest :: cls where
  "ProjectMergeRequest = GitlabObject\<lparr>
     cname := ''ProjectMergeRequest'',
     url := Some ''/projects/%(project_id)s/merge_request'',
     constructorTypes := Some [(''author'', ''User''), (''assignee'', ''User'')],
     requiredCreateAttrs := [''source_branch'', ''target_branch'', ''title''],
     optionalCreateAttrs := [''assignee_id'', ''description'', ''target_project_id'', ''labels'', ''milestone_id''],
     managers := [(''notes'', ''ProjectMergeRequestNote'', [(''project_id'', ''project_id''), (''merge_request_id'', ''id'')])]\<rparr>"

definition ProjectMilestone :: cls where
  "ProjectMilestone = GitlabObject\<lparr>
     cname := ''ProjectMilestone'',
     url := Some ''/projects/%(project_id)s/milestones'',
     canDelete := False,
     requiredCreateAttrs := [''title''],
     optionalCreateAttrs := [''description'', ''due_date'', ''state_event''],
     optionalUpdateAttrs := [''title'', ''description'', ''due_date'', ''state_event'']\<rparr>"

definition ProjectLabel :: cls where
  "ProjectLabel = GitlabObject\<lparr>
     cname := ''ProjectLabel'',
     url := Some ''/projects/%(project_id)s/labels'',
     canGet := FromList,
     requiredCreateAttrs := [''name'', ''color''],
     optionalCreateAttrs := [''new_name''],
     requiredUpdateAttrs := [],
     idAttr := ''name''\<rparr>"

definition ProjectFile :: cls where
  "ProjectFile = GitlabObject\<lparr>
     cname := ''ProjectFile'',
     url := Some ''/projects/%(project_id)s/repository/files'',
     canList := False,
     requiredCreateAttrs := [''file_path'', ''branch_name'', ''content'', ''commit_message''],
     optionalCreateAttrs := [''encoding'']\<rparr>"

definition ProjectSnippetNote :: cls where
  "ProjectSnippetNote = GitlabObject\<lparr>
     cname := ''ProjectSnippetNote'',
     url := Some ''/projects/%(project_id)s/snippets/%(snippet_id)s/notes'',
     constructorTypes := Some [(''author'', ''User'')],
     canUpdate := False,
     canDelete := False,
     requiredCreateAttrs := [''body'']\<rparr>"

definition ProjectSnippet :: cls where
  "ProjectSnippet = GitlabObject\<lparr>
     cname := ''ProjectSnippet'',
     url := Some ''/projects/%(project_id)s/snippets'',
     constructorTypes := Some [(''author'', ''User'')],
     requiredCreateAttrs := [''title'', ''file_name'', ''code''],
     optionalCreateAttrs := [''lifetime''],
     managers := [(''notes'', ''ProjectSnippetNote'', [(''project_id'', ''project_id''), (''snippet_id'', ''id'')])]\<rparr>"

definition ProjectTrigger :: cls where
  "ProjectTrigger = GitlabObject\<lparr>
     cname := ''ProjectTrigger'',
     url := Some ''/projects/%(project_id)s/triggers'',
     canUpdate := False,
     idAttr := ''token''\<rparr>"

definition ProjectVariable :: cls where
  "ProjectVariable = GitlabObject\<lparr>
     cname := ''ProjectVariable'',
     url := Some ''/projects/%(project_id)s/variables'',
     requiredCreateAttrs := [''key'', ''value''],
     idAttr := ''key''\<rparr>"

definition Project :: cls where
  "Project = GitlabObject\<lparr>
     cname := ''Project'',
     url := Some ''/projects'',
     constructorTypes := Some [(''owner'', ''User''), (''namespace'', ''Group'')],
     requiredCreateAttrs := [''name''],
     optionalCreateAttrs := [''default_branch'', ''issues_enabled'', ''wall_enabled'', ''merge_requests_enabled'', ''wiki_enabled'', ''snippets_enabled'', ''public'', ''visibility_level'', ''namespace_id'', ''description'', ''path'', ''import_url'', ''builds_enabled'', ''public_builds''],
     optionalUpdateAttrs := [''name'', ''default_branch'', ''issues_enabled'', ''wall_enabled'', ''merge_requests_enabled'', ''wiki_enabled'', ''snippets_enabled'', ''public'', ''visibility_level'', ''namespace_id'', ''description'', ''path'', ''import_url'', ''builds_enabled'', ''public_builds''],
     managers := [(''branches'', ''ProjectBranch'', [(''project_id'', ''id'')]),
       (''builds'', ''ProjectBuild'', [(''project_id'', ''id'')]),
       (''commits'', ''ProjectCommit'', [(''project_id'', ''id'')]),
       (''commitstatuses'', ''ProjectCommitStatus'', [(''project_id'', ''id'')]),
       (''events'', ''ProjectEvent'', [(''project_id'', ''id'')]),
       (''files'', ''ProjectFile'', [(''project_id'', ''id'')]),
       (''forks'', ''ProjectFork'', [(''project_id'', ''id'')]),
       (''hooks'', ''ProjectHook'', [(''project_id'', ''id'')]),
       (''keys'', ''ProjectKey'', [(''project_id'', ''id'')]),
       (''issues'', ''ProjectIssue'', [(''project_id'', ''id'')]),
       (''labels'', ''ProjectLabel'', [(''project_id'', ''id'')]),
       (''members'', ''ProjectMember'', [(''project_id'', ''id'')]),
       (''mergerequests'', ''ProjectMergeRequest'', [(''project_id'', ''id'')]),
       (''milestones'', ''ProjectMilestone'', [(''project_id'', ''id'')]),
       (''notes'', ''ProjectNote'', [(''project_id'', ''id'')]),
       (''snippets'', ''ProjectSnippet'', [(''project_id'', ''id'')]),
       (''tags'', ''ProjectTag'', [(''project_id'', ''id'')]),
       (''triggers'', ''ProjectTrigger'', [(''project_id'', ''id'')]),
       (''variables'', ''ProjectVariable'', [(''project_id'', ''id'')])]\<rparr>"

definition TeamMember :: cls where
  "TeamMember = GitlabObject\<lparr>
     cname := ''TeamMember'',
     url := Some ''/user_teams/%(team_id)s/members'',
     canUpdate := False,
     requiredCreateAttrs := [''access_level'']\<rparr>"

definition UserProject :: cls where
  "UserProject = GitlabObject\<lparr>
     cname := ''UserProject'',
     url := Some ''/projects/user/%(user_id)s'',
     constructorTypes := Some [(''owner'', ''User''), (''namespace'', ''Group'')],
     canGet := CanGetFalse,
     canList := False,
     canUpdate := False,
     canDelete := False,
     requiredCreateAttrs := [''name''],
     optionalCreateAttrs := [''default_branch'', ''issues_enabled'', ''wall_enabled'', ''merge_requests_enabled'', ''wiki_enabled'', ''snippets_enabled'', ''public'', ''visibility_level'', ''description'', ''builds_enabled'', ''public_builds'', ''import_url'']\<rparr>"

definition TeamProject :: cls where
  "TeamProject = GitlabObject\<lparr>
     cname := ''TeamProject'',
     url := Some ''/user_teams/%(team_id)s/projects'',
     constructorTypes := Some [(''owner'', ''User''), (''namespace'', ''Group'')],
     canUpdate := False,
     requiredCreateAttrs := [''greatest_access_level'']\<rparr>"

definition Team :: cls where
  "Team = GitlabObject\<lparr>
     cname := ''Team'',
     url := Some ''/user_teams'',
     canUpdate := False,
     requiredCreateAttrs := [''name'', ''path''],
     managers := [(''members'', ''TeamMember'', [(''team_id'', ''id'')]),
       (''projects'', ''TeamProject'', [(''team_id'', ''id'')])]\<rparr>"

text \<open>The classes by name, as \<open>globals()\<close> of the module gives them.\<close>

definition module_globals :: "string \<Rightarrow> cls option" where
  "module_globals = map_of
      [(''GitlabObject'', GitlabObject),
       (''UserKey'', UserKey),
       (''User'', User),
       (''CurrentUserKey'', CurrentUserKey),
       (''CurrentUser'', CurrentUser),
       (''ApplicationSettings'', ApplicationSettings),
       (''GroupMember'', GroupMember),
       (''Group'', Group),
       (''Hook'', Hook),
       (''Issue'', Issue),
       (''License'', License),
       (''ProjectBranch'', ProjectBranch),
       (''ProjectBuild'', ProjectBuild),
       (''ProjectCommit'', ProjectCommit),
       (''ProjectCommitStatus'', ProjectCommitStatus),
       (''ProjectKey'', ProjectKey),
       (''ProjectEvent'', ProjectEvent),
       (''ProjectFork'', ProjectFork),
       (''ProjectHook'', ProjectHook),
       (''ProjectIssueNote'', ProjectIssueNote),
       (''ProjectIssue'', ProjectIssue),
       (''ProjectMember'', ProjectMember),
       (''ProjectNote'', ProjectNote),
       (''ProjectTagRelease'', ProjectTagRelease),
       (''ProjectTag'', ProjectTag),
       (''ProjectMergeRequestNote'', ProjectMergeRequestNote),
       (''ProjectMergeRequest'', ProjectMergeRequest),
       (''ProjectMilestone'', ProjectMilestone),
       (''ProjectLabel'', ProjectLabel),
       (''ProjectFile'', ProjectFile),
       (''ProjectSnippetNote'', ProjectSnippetNote),
       (''ProjectSnippet'', ProjectSnippet),
       (''ProjectTrigger'', ProjectTrigger),
       (''ProjectVariable'', ProjectVariable),
       (''Project'', Project),
       (''TeamMember'', TeamMember),
       (''UserProject'', UserProject),
       (''TeamProject'', TeamProject),
       (''Team'', Team)]"

section \<open>A scripted connection\<close>

text \<open>
  The theorems below hold for every environment. The closed examples run the methods
  against this one: a server that answers every request the same way, a response check
  that accepts the expected status codes (200 when none are given), and the built-ins on
  the values the examples use: \<open>str\<close> of \<open>None\<close>, booleans, integers and strings,
  \<open>==\<close> on data written the same way and on objects by identity, \<open>json.dumps\<close> of a
  dict of such scalars.
\<close>

fun nat_str :: "nat \<Rightarrow> string" where
  "nat_str n =
     (if n < 10 then [''0123456789'' ! n]
      else nat_str (n div 10) @ [''0123456789'' ! (n mod 10)])"

declare nat_str.simps [simp del]

definition int_str :: "int \<Rightarrow> string" where
  "int_str i = (if i < 0 then ''-'' @ nat_str (nat (- i)) else nat_str (nat i))"

fun scalar_str :: "pyval \<Rightarrow> string" where
  "scalar_str VNone = ''None''"
| "scalar_str (VBool b) = (if b then ''True'' else ''False'')"
| "scalar_str (VInt i) = int_str i"
| "scalar_str (VStr s) = s"
| "scalar_str (VList xs) = ''[...]''"
| "scalar_str (VDict d) = ''{...}''"
| "scalar_str (VRef a) = ''<object>''"

fun scalar_json :: "pyval \<Rightarrow> error + string" where
  "scalar_json VNone = Inr ''null''"
| "scalar_json (VBool b) = Inr (if b then ''true'' else ''false'')"
| "scalar_json (VInt i) = Inr (int_str i)"
| "scalar_json (VStr s) = Inr ([CHR 0x22] @ s @ [CHR 0x22])"
| "scalar_json v = Inl TypeError"

fun members_json :: "pydict \<Rightarrow> error + string list" where
  "members_json [] = Inr []"
| "members_json ((k, v) # kvs) =
     (case scalar_json v of
        Inl err \<Rightarrow> Inl err
      | Inr t \<Rightarrow>
          (case members_json kvs of
             Inl err \<Rightarrow> Inl err
           | Inr ts \<Rightarrow> Inr (([CHR 0x22] @ k @ [CHR 0x22] @ '': '' @ t) # ts)))"

definition flat_json :: "pydict \<Rightarrow> error + string" where
  "flat_json d = (case members_json d of Inl err \<Rightarrow> Inl err | Inr ts \<Rightarrow> Inr (''{'' @ join '', '' ts @ ''}''))"

definition expect_status :: "response \<Rightarrow> string \<Rightarrow> int list option \<Rightarrow> error option" where
  "expect_status r err expected =
     (if status_code r \<in> set (case expected of None \<Rightarrow> [200] | Some codes \<Rightarrow> codes) then None
      else Some (External err (int_str (status_code r))))"

definition scripted :: env where
  "scripted = \<lparr>
     globals = module_globals,
     conn_get = (\<lambda>s gl c i kw. Inr (VDict [(''id'', i), (''name'', VStr ''demo''), (''project_id'', VInt 99)])),
     conn_list = (\<lambda>s gl c kw. (Inr (VList [VRef 1, VRef 2]), s)),
     conn_create = (\<lambda>s gl a kw. Inr (VDict [(''id'', VInt 42)])),
     conn_update = (\<lambda>s gl a kw. Inr (VDict [])),
     conn_delete = (\<lambda>s gl obj i kw. Inr VNone),
     conn_raw_post = (\<lambda>s gl u kw. Inr \<lparr>status_code = 304, json_body = Inr VNone\<rparr>),
     conn_raw_put = (\<lambda>s gl u kw. Inr \<lparr>status_code = 200, json_body = Inr VNone\<rparr>),
     raise_error_from_response = expect_status,
     py_str = scalar_str,
     py_eq = (\<lambda>s v w. Inr (v = w)),
     json_dumps = flat_json\<rparr>"

text \<open>
  A store for the examples: the connection object is \<open>VRef 0\<close>; two keys of user 5 at
  addresses 1 and 2; a project at 3 with its \<open>files\<close> manager at 4; an issue at 5 that
  was built locally; a user at 6 with its \<open>keys\<close> manager at 7; a branch at 8; a trigger at 9 that was
  built locally.
\<close>

definition store :: state where
  "store = \<lparr>
     heap = [
       1 \<mapsto> Inst UserKey [(''_from_api'', VBool True), (''gitlab'', VRef 0), (''id'', VInt 7), (''title'', VStr ''laptop'')],
       2 \<mapsto> Inst UserKey [(''_from_api'', VBool True), (''gitlab'', VRef 0), (''id'', VInt 8), (''title'', VStr ''desktop'')],
       3 \<mapsto> Inst Project [(''_from_api'', VBool True), (''gitlab'', VRef 0), (''id'', VInt 12), (''name'', VStr ''demo''), (''files'', VRef 4)],
       4 \<mapsto> Mgr ProjectFile (VRef 0) (Some 3) [(''project_id'', ''id'')],
       5 \<mapsto> Inst Issue [(''_from_api'', VBool False), (''gitlab'', VRef 0), (''title'', VStr ''broken''), (''id'', VNone)],
       6 \<mapsto> Inst User [(''_from_api'', VBool True), (''gitlab'', VRef 0), (''id'', VInt 5), (''username'', VStr ''ann''), (''keys'', VRef 7)],
       7 \<mapsto> Mgr UserKey (VRef 0) (Some 6) [(''user_id'', ''id'')],
       8 \<mapsto> Inst ProjectBranch [(''_from_api'', VBool True), (''gitlab'', VRef 0), (''name'', VStr ''master''), (''project_id'', VInt 12), (''protected'', VBool True), (''id'', VNone)],
       9 \<mapsto> Inst ProjectTrigger [(''_from_api'', VBool False), (''gitlab'', VRef 0), (''project_id'', VInt 12), (''id'', VNone)]],
     next_addr = 10,
     calls = []\<rparr>"

section \<open>Relations between states\<close>

text \<open>
  What a step may change, for the proofs about the constructor. \<open>frame s s'\<close>: every
  object that exists in \<open>s\<close> is the same in \<open>s'\<close>. \<open>step_ok a K s s'\<close>: every object
  other than \<open>a\<close> is the same, and the instance at \<open>a\<close> keeps its class and its
  attributes, with new values for names in \<open>K\<close> at most.
\<close>

definition frame :: "state \<Rightarrow> state \<Rightarrow> bool" where
  "frame s s' \<longleftrightarrow> next_addr s \<le> next_addr s' \<and> (\<forall>b<next_addr s. heap s' b = heap s b)"

definition step_ok :: "addr \<Rightarrow> string set \<Rightarrow> state \<Rightarrow> state \<Rightarrow> bool" where
  "step_ok a K s s' \<longleftrightarrow>
     next_addr s \<le> next_addr s' \<and>
     (\<forall>b<next_addr s. b \<noteq> a \<longrightarrow> heap s' b = heap s b) \<and>
     (\<forall>c d. inst_at s a = Some (c, d) \<longrightarrow>
        (\<exists>d'. inst_at s' a = Some (c, d') \<and> dom (map_of d) \<subseteq> dom (map_of d') \<and>
              (\<forall>k. k \<notin> K \<longrightarrow> map_of d' k = map_of d k)))"

definition ctor_frame :: "ctor \<Rightarrow> bool" where
  "ctor_frame mk \<longleftrightarrow> (\<forall>c g v kw s. frame s (snd (mk c g v kw s)))"

text \<open>The keys of a payload.\<close>

definition payload_keys :: "pyval \<Rightarrow> string set" where
  "payload_keys data = (case data of VDict kvs \<Rightarrow> fst ` set kvs | _ \<Rightarrow> {})"

text \<open>The new instance as \<open>__init__\<close> finds it after its first two assignments.\<close>

definition fresh :: "cls \<Rightarrow> pyval \<Rightarrow> state \<Rightarrow> state" where
  "fresh c gl s =
     setattr (next_addr s) ''gitlab'' gl
       (setattr (next_addr s) ''_from_api'' (VBool False) (snd (alloc (Inst c []) s)))"

text \<open>
  The mapping an instance is built from: the data given to the constructor, or, for an
  id, what the connection's \<open>get\<close> answers.
\<close>

definition payload :: "env \<Rightarrow> cls \<Rightarrow> pyval \<Rightarrow> pyval \<Rightarrow> pydict \<Rightarrow> state \<Rightarrow> error + pyval" where
  "payload e c gl data kw s =
     (if is_id data then conn_get e (fresh c gl s) gl c data kw else Inr data)"

section \<open>Notions used in the statements\<close>



text \<open>
  The arguments a manager call carries, as the specification describes them: what the
  caller gave, and for every other linked name the value of the parent's attribute.
\<close>

definition merged_args :: "pydict \<Rightarrow> (string \<times> string) list \<Rightarrow> pydict \<Rightarrow> string \<Rightarrow> pyval option" where
  "merged_args kwargs links d k =
     (case map_of kwargs k of
        Some v \<Rightarrow> Some v
      | None \<Rightarrow> (case map_of links k of Some parent_attr \<Rightarrow> map_of d parent_attr | None \<Rightarrow> None))"

text \<open>
  The attribute mapping of an instance restricted to the attributes that are not
  managers and whose names do not begin with an underscore, as the specification words
  it.
\<close>

definition underscore_prefixed :: "string \<Rightarrow> bool" where
  "underscore_prefixed k = (case k of [] \<Rightarrow> False | ch # rest \<Rightarrow> ch = CHR ''_'')"

definition visible :: "state \<Rightarrow> pydict \<Rightarrow> pydict" where
  "visible s d = filter (\<lambda>kv. \<not> is_manager s (snd kv) \<and> \<not> underscore_prefixed (fst kv)) d"

text \<open>Two users that differ in their passwords only, each with its \<open>keys\<close> manager, and an issue.\<close>

definition users :: state where
  "users = \<lparr>
     heap = [
       1 \<mapsto> Inst User [(''_from_api'', VBool True), (''gitlab'', VRef 0), (''id'', VInt 5),
                        (''username'', VStr ''ann''), (''password'', VStr ''first''), (''keys'', VRef 3)],
       2 \<mapsto> Inst User [(''_from_api'', VBool False), (''gitlab'', VRef 0), (''id'', VInt 5),
                        (''username'', VStr ''ann''), (''password'', VStr ''second''), (''keys'', VRef 4)],
       3 \<mapsto> Mgr UserKey (VRef 0) (Some 1) [(''user_id'', ''id'')],
       4 \<mapsto> Mgr UserKey (VRef 0) (Some 2) [(''user_id'', ''id'')],
       5 \<mapsto> Inst Issue [(''_from_api'', VBool True), (''gitlab'', VRef 0), (''id'', VInt 5)]],
     next_addr = 6,
     calls = []\<rparr>"







section \<open>The constructor changes the new instance only\<close>

lemma frame_refl: "frame s s"
  by (simp add: frame_def)

lemma frame_trans: "frame s s' \<Longrightarrow> frame s' s'' \<Longrightarrow> frame s s''"
  by (auto simp: frame_def)

lemma step_ok_refl: "step_ok a K s s"
  by (simp add: step_ok_def)

lemma step_okD:
  assumes "step_ok a K s s'"
  shows "next_addr s \<le> next_addr s'"
    and "\<And>b. b < next_addr s \<Longrightarrow> b \<noteq> a \<Longrightarrow> heap s' b = heap s b"
    and "\<And>c d. inst_at s a = Some (c, d) \<Longrightarrow>
           \<exists>d'. inst_at s' a = Some (c, d') \<and> dom (map_of d) \<subseteq> dom (map_of d') \<and>
                (\<forall>k. k \<notin> K \<longrightarrow> map_of d' k = map_of d k)"
  using assms unfolding step_ok_def by blast+

lemma step_okI:
  assumes "next_addr s \<le> next_addr s'"
    and "\<And>b. b < next_addr s \<Longrightarrow> b \<noteq> a \<Longrightarrow> heap s' b = heap s b"
    and "\<And>c d. inst_at s a = Some (c, d) \<Longrightarrow>
           \<exists>d'. inst_at s' a = Some (c, d') \<and> dom (map_of d) \<subseteq> dom (map_of d') \<and>
                (\<forall>k. k \<notin> K \<longrightarrow> map_of d' k = map_of d k)"
  shows "step_ok a K s s'"
  using assms unfolding step_ok_def by blast

lemma step_ok_trans:
  assumes 1: "step_ok a K s s'" and 2: "step_ok a K' s' s''"
  shows "step_ok a (K \<union> K') s s''"
proof (rule step_okI)
  show "next_addr s \<le> next_addr s''"
    using step_okD(1) [OF 1] step_okD(1) [OF 2] by simp
next
  fix b assume b: "b < next_addr s" "b \<noteq> a"
  then have "b < next_addr s'" using step_okD(1) [OF 1] by simp
  then show "heap s'' b = heap s b"
    using step_okD(2) [OF 1 b] step_okD(2) [OF 2 _ b(2)] by simp
next
  fix c d assume "inst_at s a = Some (c, d)"
  from step_okD(3) [OF 1 this] obtain d1 where
    d1: "inst_at s' a = Some (c, d1)" "dom (map_of d) \<subseteq> dom (map_of d1)"
        "\<forall>k. k \<notin> K \<longrightarrow> map_of d1 k = map_of d k" by blast
  from step_okD(3) [OF 2 d1(1)] obtain d2 where
    d2: "inst_at s'' a = Some (c, d2)" "dom (map_of d1) \<subseteq> dom (map_of d2)"
        "\<forall>k. k \<notin> K' \<longrightarrow> map_of d2 k = map_of d1 k" by blast
  have "dom (map_of d) \<subseteq> dom (map_of d2)" using d1(2) d2(2) by (rule subset_trans)
  moreover have "\<forall>k. k \<notin> K \<union> K' \<longrightarrow> map_of d2 k = map_of d k"
    using d1(3) d2(3) by simp
  ultimately show "\<exists>d'. inst_at s'' a = Some (c, d') \<and> dom (map_of d) \<subseteq> dom (map_of d') \<and>
                (\<forall>k. k \<notin> K \<union> K' \<longrightarrow> map_of d' k = map_of d k)"
    using d2(1) by blast
qed

lemma step_ok_mono:
  assumes 1: "step_ok a K s s'" and 2: "K \<subseteq> K'"
  shows "step_ok a K' s s'"
proof (rule step_okI)
  show "next_addr s \<le> next_addr s'" by (rule step_okD(1) [OF 1])
next
  fix b assume "b < next_addr s" "b \<noteq> a"
  then show "heap s' b = heap s b" by (rule step_okD(2) [OF 1])
next
  fix c d assume "inst_at s a = Some (c, d)"
  from step_okD(3) [OF 1 this] obtain d1 where
    d1: "inst_at s' a = Some (c, d1)" "dom (map_of d) \<subseteq> dom (map_of d1)"
        "\<forall>k. k \<notin> K \<longrightarrow> map_of d1 k = map_of d k" by blast
  have "\<forall>k. k \<notin> K' \<longrightarrow> map_of d1 k = map_of d k" using d1(3) 2 by blast
  then show "\<exists>d'. inst_at s' a = Some (c, d') \<and> dom (map_of d) \<subseteq> dom (map_of d') \<and>
                (\<forall>k. k \<notin> K' \<longrightarrow> map_of d' k = map_of d k)"
    using d1(1,2) by blast
qed

lemma step_ok_next: "step_ok a K s s' \<Longrightarrow> a < next_addr s \<Longrightarrow> a < next_addr s'"
  by (simp add: step_ok_def)

lemma frame_step_ok:
  assumes 1: "frame s s'" and 2: "a < next_addr s"
  shows "step_ok a K s s'"
proof (rule step_okI)
  show "next_addr s \<le> next_addr s'" using 1 by (simp add: frame_def)
next
  fix b assume "b < next_addr s" "b \<noteq> a"
  then show "heap s' b = heap s b" using 1 by (simp add: frame_def)
next
  fix c d assume i: "inst_at s a = Some (c, d)"
  have "heap s' a = heap s a" using 1 2 by (simp add: frame_def)
  then have "inst_at s' a = Some (c, d)" using i by (simp add: inst_at_def)
  then show "\<exists>d'. inst_at s' a = Some (c, d') \<and> dom (map_of d) \<subseteq> dom (map_of d') \<and>
                (\<forall>k. k \<notin> K \<longrightarrow> map_of d' k = map_of d k)"
    by blast
qed

lemma inst_at_setattr:
  "inst_at s a = Some (c, d) \<Longrightarrow> inst_at (setattr a k v s) a = Some (c, AList.update k v d)"
  by (simp add: setattr_def inst_at_def)

lemma inst_at_setattr_None: "inst_at s a = None \<Longrightarrow> setattr a k v s = s"
  by (simp add: setattr_def)

lemma heap_setattr_other: "b \<noteq> a \<Longrightarrow> heap (setattr a k v s) b = heap s b"
  by (simp add: setattr_def split: option.splits)

lemma next_setattr: "next_addr (setattr a k v s) = next_addr s"
  by (simp add: setattr_def split: option.splits)

lemma calls_setattr: "calls (setattr a k v s) = calls s"
  by (simp add: setattr_def split: option.splits)

lemma setattr_step: "step_ok a {k} s (setattr a k v s)"
proof (rule step_okI)
  show "next_addr s \<le> next_addr (setattr a k v s)" by (simp add: next_setattr)
next
  fix b assume "b < next_addr s" "b \<noteq> a"
  then show "heap (setattr a k v s) b = heap s b" by (simp add: heap_setattr_other)
next
  fix c d assume i: "inst_at s a = Some (c, d)"
  have "dom (map_of d) \<subseteq> dom (map_of (AList.update k v d))"
    by (auto simp: update_conv')
  moreover have "\<forall>k'. k' \<notin> {k} \<longrightarrow> map_of (AList.update k v d) k' = map_of d k'"
    by (simp add: update_conv')
  ultimately show "\<exists>d'. inst_at (setattr a k v s) a = Some (c, d') \<and> dom (map_of d) \<subseteq> dom (map_of d') \<and>
                (\<forall>k'. k' \<notin> {k} \<longrightarrow> map_of d' k' = map_of d k')"
    using inst_at_setattr [OF i] by blast
qed

lemma list_append_step: "step_ok a {k} s (list_append a k x s)"
  by (simp add: list_append_def step_ok_refl setattr_step split: sum.splits pyval.splits)

lemma log_call_frame: "frame s (log_call c s)"
  by (simp add: frame_def log_call_def)

lemma alloc_frame:
  "alloc obj s = (b, s') \<Longrightarrow> frame s s' \<and> b = next_addr s \<and> next_addr s' = Suc b \<and> heap s' b = Some obj"
  by (auto simp: alloc_def frame_def)

lemma get_object_step:
  assumes mk: "ctor_frame mk" and lt: "a < next_addr s"
  shows "step_ok a {} s (snd (get_object mk e a c k v s))"
proof -
  have nested: "\<And>c' gl. step_ok a {} s (snd (mk c' gl v [] s))"
    using mk lt by (simp add: ctor_frame_def frame_step_ok)
  show ?thesis
    unfolding get_object_def
    using nested [of _ _]
    by (simp add: step_ok_refl split: option.splits sum.splits prod.splits) (metis snd_conv)
qed

lemma set_list_step:
  "ctor_frame mk \<Longrightarrow> a < next_addr s \<Longrightarrow> step_ok a {k} s (snd (set_list mk e a c k vs s))"
proof (induction vs arbitrary: s)
  case Nil
  then show ?case by (simp add: step_ok_refl)
next
  case (Cons i rest)
  obtain r s1 where g: "get_object mk e a c k i s = (r, s1)" by force
  have st1: "step_ok a {} s s1"
    using get_object_step [OF Cons.prems, where e=e and c=c and k=k and v=i] g by simp
  show ?case
  proof (cases r)
    case (Inl err)
    then show ?thesis using g step_ok_mono [OF st1, of "{k}"] by simp
  next
    case (Inr x)
    have st2: "step_ok a {k} s1 (list_append a k x s1)" by (rule list_append_step)
    have lt: "a < next_addr (list_append a k x s1)"
      using step_ok_next [OF st2 step_ok_next [OF st1 Cons.prems(2)]] .
    have st3: "step_ok a {k} (list_append a k x s1) (snd (set_list mk e a c k rest (list_append a k x s1)))"
      by (rule Cons.IH [OF Cons.prems(1) lt])
    have "step_ok a (({} \<union> {k}) \<union> {k}) s (snd (set_list mk e a c k rest (list_append a k x s1)))"
      by (rule step_ok_trans [OF step_ok_trans [OF st1 st2] st3])
    then show ?thesis using g Inr by simp
  qed
qed

lemma set_item_step:
  assumes mk: "ctor_frame mk" and lt: "a < next_addr s"
  shows "step_ok a {k} s (snd (set_item mk e a c k v s))"
proof -
  have other: "step_ok a {k} s (snd (case get_object mk e a c k v s of
             (Inl err, s') \<Rightarrow> (Inl err, s')
           | (Inr x, s') \<Rightarrow> (Inr (), setattr a k x s')))"
  proof -
    obtain r s1 where g: "get_object mk e a c k v s = (r, s1)" by force
    have st1: "step_ok a {} s s1"
      using get_object_step [OF mk lt, where e=e and c=c and k=k and v=v] g by simp
    show ?thesis
    proof (cases r)
      case (Inl err)
      then show ?thesis using g step_ok_mono [OF st1, of "{k}"] by simp
    next
      case (Inr x)
      have "step_ok a ({} \<union> {k}) s (setattr a k x s1)"
        by (rule step_ok_trans [OF st1 setattr_step])
      then show ?thesis using g Inr by simp
    qed
  qed
  show ?thesis
  proof (cases v)
    case (VList vs)
    have st1: "step_ok a {k} s (setattr a k (VList []) s)" by (rule setattr_step)
    have lt1: "a < next_addr (setattr a k (VList []) s)" using lt by (simp add: next_setattr)
    have "step_ok a ({k} \<union> {k}) s (snd (set_list mk e a c k vs (setattr a k (VList []) s)))"
      by (rule step_ok_trans [OF st1 set_list_step [OF mk lt1]])
    then show ?thesis using VList by (simp add: set_item_def)
  next
    case VNone
    then show ?thesis by (simp add: set_item_def setattr_step)
  qed (use other in \<open>simp_all add: set_item_def\<close>)
qed

lemma set_items_step:
  "ctor_frame mk \<Longrightarrow> a < next_addr s \<Longrightarrow> step_ok a (fst ` set kvs) s (snd (set_items mk e a c kvs s))"
proof (induction kvs arbitrary: s)
  case Nil
  then show ?case by (simp add: step_ok_refl)
next
  case (Cons kv kvs)
  obtain k v where kv: "kv = (k, v)" by force
  obtain r s1 where g: "set_item mk e a c k v s = (r, s1)" by force
  have st1: "step_ok a {k} s s1"
    using set_item_step [OF Cons.prems, where e=e and c=c and k=k and v=v] g by simp
  show ?case
  proof (cases r)
    case (Inl err)
    then show ?thesis using g kv step_ok_mono [OF st1, of "fst ` set (kv # kvs)"] by simp
  next
    case (Inr u)
    have st2: "step_ok a (fst ` set kvs) s1 (snd (set_items mk e a c kvs s1))"
      by (rule Cons.IH [OF Cons.prems(1) step_ok_next [OF st1 Cons.prems(2)]])
    have "step_ok a ({k} \<union> fst ` set kvs) s (snd (set_items mk e a c kvs s1))"
      by (rule step_ok_trans [OF st1 st2])
    then show ?thesis using g kv Inr by simp
  qed
qed

lemma set_from_dict_step:
  "ctor_frame mk \<Longrightarrow> a < next_addr s \<Longrightarrow> step_ok a (payload_keys data) s (snd (set_from_dict mk e a c data s))"
  by (cases data) (simp_all add: set_from_dict_def payload_keys_def step_ok_refl set_items_step)

lemma gl_get_frame: "frame s (snd (gl_get e gl c i kw s))"
  by (simp add: gl_get_def log_call_frame)

lemma init_data_step:
  assumes lt: "a < next_addr s"
  shows "step_ok a {''_from_api''} s (snd (init_data e a c data kw s))"
proof -
  have "\<And>gl. step_ok a {''_from_api''} s
          (snd (case gl_get e gl c data kw s of
                  (Inl err, s') \<Rightarrow> (Inl err, s')
                | (Inr d, s') \<Rightarrow> (Inr d, setattr a ''_from_api'' (VBool True) s')))"
  proof -
    fix gl
    obtain r s1 where g: "gl_get e gl c data kw s = (r, s1)" by force
    have st1: "step_ok a {} s s1"
      using frame_step_ok [OF gl_get_frame lt, where e1=e and gl1=gl and c1=c and i1=data and kw1=kw] g by simp
    show "step_ok a {''_from_api''} s
          (snd (case gl_get e gl c data kw s of
                  (Inl err, s') \<Rightarrow> (Inl err, s')
                | (Inr d, s') \<Rightarrow> (Inr d, setattr a ''_from_api'' (VBool True) s')))"
    proof (cases r)
      case (Inl err)
      then show ?thesis using g step_ok_mono [OF st1, of "{''_from_api''}"] by simp
    next
      case (Inr d)
      have "step_ok a ({} \<union> {''_from_api''}) s (setattr a ''_from_api'' (VBool True) s1)"
        by (rule step_ok_trans [OF st1 setattr_step])
      then show ?thesis using g Inr by simp
    qed
  qed
  then show ?thesis
    by (simp add: init_data_def step_ok_refl split: sum.splits)
qed

lemma set_kwargs_step: "step_ok a (fst ` set kw) s (set_kwargs a kw s)"
proof (induction kw arbitrary: s)
  case Nil
  then show ?case by (simp add: step_ok_refl)
next
  case (Cons kv kw)
  obtain k v where kv: "kv = (k, v)" by force
  have "step_ok a ({k} \<union> fst ` set kw) s (set_kwargs a kw (setattr a k v s))"
    by (rule step_ok_trans [OF setattr_step Cons.IH])
  then show ?case using kv by simp
qed

lemma set_managers_step:
  "a < next_addr s \<Longrightarrow> step_ok a (fst ` set ms) s (snd (set_managers e a ms s))"
proof (induction ms arbitrary: s)
  case Nil
  then show ?case by (simp add: step_ok_refl)
next
  case (Cons m ms)
  obtain var n attrs where m: "m = (var, n, attrs)" by (cases m) auto
  show ?case
  proof (cases "globals e n")
    case None
    then show ?thesis using m by (simp add: step_ok_refl)
  next
    case (Some oc)
    show ?thesis
    proof (cases "getattr s a ''gitlab''")
      case (Inl err)
      then show ?thesis using m Some by (simp add: step_ok_refl)
    next
      case (Inr gl)
      obtain b s1 where al: "alloc (Mgr oc gl (Some a) attrs) s = (b, s1)" by force
      have st1: "step_ok a {} s s1"
        using alloc_frame [OF al] Cons.prems by (simp add: frame_step_ok)
      have st2: "step_ok a {var} s1 (setattr a var (VRef b) s1)" by (rule setattr_step)
      have lt: "a < next_addr (setattr a var (VRef b) s1)"
        by (rule step_ok_next [OF st2 step_ok_next [OF st1 Cons.prems]])
      have "step_ok a (({} \<union> {var}) \<union> fst ` set ms) s (snd (set_managers e a ms (setattr a var (VRef b) s1)))"
        by (rule step_ok_trans [OF step_ok_trans [OF st1 st2] Cons.IH [OF lt]])
      then show ?thesis using m Some Inr al by simp
    qed
  qed
qed

lemma id_default_step:
  "step_ok a {''id''} s (if hasattr s a ''id'' then s else setattr a ''id'' VNone s)"
  by (simp add: step_ok_refl setattr_step)

lemma init_finish_step:
  assumes lt: "a < next_addr s"
  shows "step_ok a (fst ` set kw \<union> {''id''} \<union> fst ` set (managers c)) s (snd (init_finish e a c kw s))"
proof -
  let ?s1 = "set_kwargs a kw s"
  let ?s2 = "if hasattr ?s1 a ''id'' then ?s1 else setattr a ''id'' VNone ?s1"
  have st1: "step_ok a (fst ` set kw) s ?s1" by (rule set_kwargs_step)
  have st2: "step_ok a {''id''} ?s1 ?s2" by (rule id_default_step)
  have lt2: "a < next_addr ?s2" by (rule step_ok_next [OF st2 step_ok_next [OF st1 lt]])
  have st3: "step_ok a (fst ` set (managers c)) ?s2 (snd (set_managers e a (managers c) ?s2))"
    by (rule set_managers_step [OF lt2])
  have "step_ok a (fst ` set kw \<union> {''id''} \<union> fst ` set (managers c)) s (snd (set_managers e a (managers c) ?s2))"
    by (rule step_ok_trans [OF step_ok_trans [OF st1 st2] st3])
  moreover have "snd (init_finish e a c kw s) = snd (set_managers e a (managers c) ?s2)"
  proof -
    obtain r s3 where g: "set_managers e a (managers c) ?s2 = (r, s3)" by force
    show ?thesis
      by (cases r) (simp_all add: init_finish_def Let_def g)
  qed
  ultimately show ?thesis by simp
qed

lemma fresh_facts:
  "next_addr (fresh c gl s) = Suc (next_addr s)"
  "inst_at (fresh c gl s) (next_addr s) = Some (c, [(''_from_api'', VBool False), (''gitlab'', gl)])"
  "b \<noteq> next_addr s \<Longrightarrow> heap (fresh c gl s) b = heap s b"
  "calls (fresh c gl s) = calls s"
  by (simp_all add: fresh_def alloc_def setattr_def inst_at_def)

lemma init_Suc:
  "init (Suc n) e c gl data kw s =
     (case init_data e (next_addr s) c data kw (fresh c gl s) of
        (Inl err, s1) \<Rightarrow> (Inl err, s1)
      | (Inr d, s1) \<Rightarrow>
          (case set_from_dict (init n e) e (next_addr s) c d s1 of
             (Inl err, s2) \<Rightarrow> (Inl err, s2)
           | (Inr u, s2) \<Rightarrow> init_finish e (next_addr s) c kw s2))"
  by (simp add: fresh_def alloc_def)

lemma init_finish_addr: "init_finish e a c kw s = (Inr b, s') \<Longrightarrow> b = a"
  by (auto simp: init_finish_def Let_def split: prod.splits sum.splits)

lemma init_SucD:
  assumes "init (Suc n) e c gl data kw s = (Inr a, s')"
  shows "\<exists>d s1 s2. a = next_addr s \<and>
           init_data e a c data kw (fresh c gl s) = (Inr d, s1) \<and>
           set_from_dict (init n e) e a c d s1 = (Inr (), s2) \<and>
           init_finish e a c kw s2 = (Inr a, s')"
proof -
  obtain r1 s1 where g1: "init_data e (next_addr s) c data kw (fresh c gl s) = (r1, s1)" by force
  then obtain d where r1: "r1 = Inr d"
    using assms by (cases r1) (simp_all add: init_Suc del: init.simps)
  obtain r2 s2 where g2: "set_from_dict (init n e) e (next_addr s) c d s1 = (r2, s2)" by force
  then have r2: "r2 = Inr ()"
    using assms g1 r1 by (cases r2) (simp_all add: init_Suc del: init.simps)
  have g3: "init_finish e (next_addr s) c kw s2 = (Inr a, s')"
    using assms g1 r1 g2 r2 by (simp add: init_Suc del: init.simps)
  have "a = next_addr s" using init_finish_addr [OF g3] .
  then show ?thesis using g1 r1 g2 r2 g3 by blast
qed

lemma init_body_step:
  assumes mk: "ctor_frame (init n e)"
  shows "step_ok (next_addr s) UNIV (fresh c gl s) (snd (init (Suc n) e c gl data kw s))"
proof -
  let ?a = "next_addr s"
  have lt0: "?a < next_addr (fresh c gl s)" by (simp add: fresh_facts)
  obtain r1 s1 where g1: "init_data e ?a c data kw (fresh c gl s) = (r1, s1)" by force
  have st1: "step_ok ?a {''_from_api''} (fresh c gl s) s1"
    using init_data_step [OF lt0, where e=e and c=c and data=data and kw=kw] g1 by simp
  have lt1: "?a < next_addr s1" by (rule step_ok_next [OF st1 lt0])
  show ?thesis
  proof (cases r1)
    case (Inl err)
    then show ?thesis using g1 step_ok_mono [OF st1, of UNIV] by (simp add: init_Suc del: init.simps)
  next
    case (Inr d)
    obtain r2 s2 where g2: "set_from_dict (init n e) e ?a c d s1 = (r2, s2)" by force
    have st2: "step_ok ?a (payload_keys d) s1 s2"
      using set_from_dict_step [OF mk lt1, where e=e and c=c and data=d] g2 by simp
    have st12: "step_ok ?a UNIV (fresh c gl s) s2"
      by (rule step_ok_mono [OF step_ok_trans [OF st1 st2]]) simp
    have lt2: "?a < next_addr s2" by (rule step_ok_next [OF st2 lt1])
    show ?thesis
    proof (cases r2)
      case (Inl err)
      then show ?thesis using g1 Inr g2 st12 by (simp add: init_Suc del: init.simps)
    next
      case (Inr u)
      have st3: "step_ok ?a UNIV s2 (snd (init_finish e ?a c kw s2))"
        by (rule step_ok_mono [OF init_finish_step [OF lt2]]) simp
      have "step_ok ?a (UNIV \<union> UNIV) (fresh c gl s) (snd (init_finish e ?a c kw s2))"
        by (rule step_ok_trans [OF st12 st3])
      then show ?thesis using g1 \<open>r1 = Inr d\<close> g2 Inr by (simp add: init_Suc del: init.simps)
    qed
  qed
qed

lemma init_frame: "frame s (snd (init n e c gl data kw s))"
proof (induction n arbitrary: c gl data kw s)
  case 0
  then show ?case by (simp add: frame_refl)
next
  case (Suc n)
  have mk: "ctor_frame (init n e)"
    unfolding ctor_frame_def using Suc.IH by blast
  have st: "step_ok (next_addr s) UNIV (fresh c gl s) (snd (init (Suc n) e c gl data kw s))"
    by (rule init_body_step [OF mk])
  show ?case
    unfolding frame_def
  proof (intro conjI allI impI)
    show "next_addr s \<le> next_addr (snd (init (Suc n) e c gl data kw s))"
      using step_okD(1) [OF st] by (simp add: fresh_facts)
  next
    fix b assume b: "b < next_addr s"
    then have "heap (snd (init (Suc n) e c gl data kw s)) b = heap (fresh c gl s) b"
      using step_okD(2) [OF st, of b] by (simp add: fresh_facts)
    then show "heap (snd (init (Suc n) e c gl data kw s)) b = heap s b"
      using b by (simp add: fresh_facts)
  qed
qed

lemma init_ctor_frame: "ctor_frame (init n e)"
  by (simp add: ctor_frame_def init_frame)

lemma init_data_payload:
  assumes "init_data e (next_addr s) c data kw (fresh c gl s) = (Inr d, s1)"
  shows "payload e c gl data kw s = Inr d"
proof -
  have g: "getattr (fresh c gl s) (next_addr s) ''gitlab'' = Inr gl"
    by (simp add: getattr_def fresh_facts)
  show ?thesis
    using assms
    by (auto simp: init_data_def payload_def g gl_get_def split: if_splits sum.splits)
qed

lemma set_kwargs_value:
  "inst_at s a = Some (c, d) \<Longrightarrow>
   \<exists>d'. inst_at (set_kwargs a kw s) a = Some (c, d') \<and>
        (\<forall>k. map_of d' k = (case map_of (rev kw) k of Some v \<Rightarrow> Some v | None \<Rightarrow> map_of d k))"
proof (induction kw arbitrary: s d)
  case Nil
  then show ?case by simp
next
  case (Cons kv kw)
  obtain k0 v0 where kv: "kv = (k0, v0)" by force
  have i1: "inst_at (setattr a k0 v0 s) a = Some (c, AList.update k0 v0 d)"
    by (rule inst_at_setattr [OF Cons.prems])
  from Cons.IH [OF i1] obtain d' where
    d': "inst_at (set_kwargs a kw (setattr a k0 v0 s)) a = Some (c, d')"
        "\<forall>k. map_of d' k = (case map_of (rev kw) k of Some v \<Rightarrow> Some v | None \<Rightarrow> map_of (AList.update k0 v0 d) k)"
    by blast
  have "\<forall>k. map_of d' k = (case map_of (rev (kv # kw)) k of Some v \<Rightarrow> Some v | None \<Rightarrow> map_of d k)"
    using d'(2) kv by (simp add: update_conv' map_add_def split: option.splits)
  then show ?case using d'(1) kv by auto
qed

lemma hasattr_iff: "inst_at s a = Some (c, d) \<Longrightarrow> hasattr s a k \<longleftrightarrow> map_of d k \<noteq> None"
  by (auto simp: hasattr_def getattr_def split: option.splits)

lemma getattr_iff: "inst_at s a = Some (c, d) \<Longrightarrow> getattr s a k = Inr v \<longleftrightarrow> map_of d k = Some v"
  by (auto simp: getattr_def split: option.splits)

lemma init_finish_snd:
  "snd (init_finish e a c kw s) =
     snd (set_managers e a (managers c)
            (if hasattr (set_kwargs a kw s) a ''id'' then set_kwargs a kw s
             else setattr a ''id'' VNone (set_kwargs a kw s)))"
proof -
  obtain r s3 where g: "set_managers e a (managers c)
            (if hasattr (set_kwargs a kw s) a ''id'' then set_kwargs a kw s
             else setattr a ''id'' VNone (set_kwargs a kw s)) = (r, s3)" by force
  show ?thesis
    by (cases r) (simp_all add: init_finish_def Let_def g)
qed

lemma setattr_dom:
  "inst_at s a = Some (c, d) \<Longrightarrow> \<exists>d1. inst_at (setattr a k v s) a = Some (c, d1) \<and> k \<in> dom (map_of d1)"
  using inst_at_setattr [of s a c d k v] by (auto simp: update_conv')

lemma step_ok_dom:
  assumes "step_ok a K s s'" and "inst_at s a = Some (c, d)" and "k \<in> dom (map_of d)"
  shows "\<exists>d'. inst_at s' a = Some (c, d') \<and> k \<in> dom (map_of d')"
  using step_okD(3) [OF assms(1,2)] assms(3) by blast

lemma set_item_dom:
  assumes mk: "ctor_frame mk" and lt: "a < next_addr s" and i: "inst_at s a = Some (c0, d)"
    and ok: "set_item mk e a c k v s = (Inr u, s1)"
  shows "\<exists>d1. inst_at s1 a = Some (c0, d1) \<and> k \<in> dom (map_of d1)"
proof -
  have other: "(case get_object mk e a c k v s of
             (Inl err, s') \<Rightarrow> (Inl err, s')
           | (Inr x, s') \<Rightarrow> (Inr (), setattr a k x s')) = (Inr u, s1) \<Longrightarrow> ?thesis"
  proof -
    assume h: "(case get_object mk e a c k v s of
             (Inl err, s') \<Rightarrow> (Inl err, s')
           | (Inr x, s') \<Rightarrow> (Inr (), setattr a k x s')) = (Inr u, s1)"
    obtain r s2 where g: "get_object mk e a c k v s = (r, s2)" by force
    then obtain x where r: "r = Inr x" using h by (cases r) simp_all
    have s1: "s1 = setattr a k x s2" using h g r by simp
    have st: "step_ok a {} s s2"
      using get_object_step [OF mk lt, where e=e and c=c and k=k and v=v] g by simp
    from step_okD(3) [OF st i] obtain d2 where "inst_at s2 a = Some (c0, d2)" by blast
    from setattr_dom [OF this] show ?thesis unfolding s1 .
  qed
  show ?thesis
  proof (cases v)
    case VNone
    then have "s1 = setattr a k VNone s" using ok by (simp add: set_item_def)
    then show ?thesis using setattr_dom [OF i] by simp
  next
    case (VList vs)
    let ?s0 = "setattr a k (VList []) s"
    from setattr_dom [OF i] obtain d0 where d0: "inst_at ?s0 a = Some (c0, d0)" "k \<in> dom (map_of d0)"
      by blast
    have lt0: "a < next_addr ?s0" using lt by (simp add: next_setattr)
    have "s1 = snd (set_list mk e a c k vs ?s0)" using ok VList by (simp add: set_item_def)
    then have "step_ok a {k} ?s0 s1" using set_list_step [OF mk lt0] by simp
    from step_ok_dom [OF this d0] show ?thesis .
  qed (use other ok in \<open>simp_all add: set_item_def\<close>)
qed

lemma set_items_dom:
  "ctor_frame mk \<Longrightarrow> a < next_addr s \<Longrightarrow> inst_at s a = Some (c0, d) \<Longrightarrow>
   set_items mk e a c kvs s = (Inr u, s') \<Longrightarrow>
   \<exists>d'. inst_at s' a = Some (c0, d') \<and> fst ` set kvs \<subseteq> dom (map_of d')"
proof (induction kvs arbitrary: s d)
  case Nil
  then show ?case by simp
next
  case (Cons kv kvs)
  obtain k v where kv: "kv = (k, v)" by force
  obtain r s1 where g: "set_item mk e a c k v s = (r, s1)" by force
  then obtain u1 where r: "r = Inr u1" using Cons.prems(4) kv by (cases r) simp_all
  have rest: "set_items mk e a c kvs s1 = (Inr u, s')" using Cons.prems(4) kv g r by simp
  from set_item_dom [OF Cons.prems(1,2,3) g [unfolded r]] obtain d1 where
    d1: "inst_at s1 a = Some (c0, d1)" "k \<in> dom (map_of d1)" by blast
  have st1: "step_ok a {k} s s1"
    using set_item_step [OF Cons.prems(1,2), where e=e and c=c and k=k and v=v] g by simp
  have lt1: "a < next_addr s1" by (rule step_ok_next [OF st1 Cons.prems(2)])
  from Cons.IH [OF Cons.prems(1) lt1 d1(1) rest] obtain d' where
    d': "inst_at s' a = Some (c0, d')" "fst ` set kvs \<subseteq> dom (map_of d')" by blast
  have "step_ok a (fst ` set kvs) s1 s'"
    using set_items_step [OF Cons.prems(1) lt1, where e=e and c=c and kvs=kvs] rest by simp
  from step_ok_dom [OF this d1] d'(1) have "k \<in> dom (map_of d')" by simp
  then show ?case using d' kv by simp
qed

lemma set_from_dict_dom:
  assumes "ctor_frame mk" "a < next_addr s" "inst_at s a = Some (c0, d)"
    "set_from_dict mk e a c data s = (Inr u, s')"
  shows "\<exists>d'. inst_at s' a = Some (c0, d') \<and> payload_keys data \<subseteq> dom (map_of d')"
proof (cases data)
  case (VDict kvs)
  then show ?thesis
    using set_items_dom [OF assms(1,2,3), of e c kvs u s'] assms(4)
    by (simp add: set_from_dict_def payload_keys_def)
qed (use assms(4) in \<open>simp_all add: set_from_dict_def\<close>)

lemma set_managers_dom:
  "a < next_addr s \<Longrightarrow> inst_at s a = Some (c0, d) \<Longrightarrow> set_managers e a ms s = (Inr u, s') \<Longrightarrow>
   \<exists>d'. inst_at s' a = Some (c0, d') \<and> fst ` set ms \<subseteq> dom (map_of d')"
proof (induction ms arbitrary: s d)
  case Nil
  then show ?case by simp
next
  case (Cons m ms)
  obtain var n attrs where m: "m = (var, n, attrs)" by (cases m) auto
  obtain oc where oc: "globals e n = Some oc"
    using Cons.prems(3) m by (cases "globals e n") simp_all
  obtain gl where gl: "getattr s a ''gitlab'' = Inr gl"
    using Cons.prems(3) m oc by (cases "getattr s a ''gitlab''") simp_all
  obtain b s1 where al: "alloc (Mgr oc gl (Some a) attrs) s = (b, s1)" by force
  let ?s2 = "setattr a var (VRef b) s1"
  have rest: "set_managers e a ms ?s2 = (Inr u, s')"
    using Cons.prems(3) m oc gl al by simp
  have st1: "step_ok a {} s s1"
    using alloc_frame [OF al] Cons.prems(1) by (simp add: frame_step_ok)
  from step_okD(3) [OF st1 Cons.prems(2)] obtain d1 where d1: "inst_at s1 a = Some (c0, d1)" by blast
  from setattr_dom [OF d1] obtain d2 where d2: "inst_at ?s2 a = Some (c0, d2)" "var \<in> dom (map_of d2)"
    by blast
  have lt2: "a < next_addr ?s2"
    by (rule step_ok_next [OF setattr_step step_ok_next [OF st1 Cons.prems(1)]])
  from Cons.IH [OF lt2 d2(1) rest] obtain d' where
    d': "inst_at s' a = Some (c0, d')" "fst ` set ms \<subseteq> dom (map_of d')" by blast
  have "step_ok a (fst ` set ms) ?s2 s'"
    using set_managers_step [OF lt2, of ms e] rest by simp
  from step_ok_dom [OF this d2] d'(1) have "var \<in> dom (map_of d')" by simp
  then show ?case using d' m by simp
qed

lemma init_stages:
  assumes ok: "init n e c gl data kw s = (Inr a, s')"
  obtains p d2 d3 d5 where
    "a = next_addr s" and "a < next_addr s'" and "payload e c gl data kw s = Inr p" and
    "\<forall>k. k \<notin> {''_from_api''} \<union> payload_keys p \<longrightarrow>
               map_of d2 k = map_of [(''_from_api'', VBool False), (''gitlab'', gl)] k" and
    "{''_from_api'', ''gitlab''} \<union> payload_keys p \<subseteq> dom (map_of d2)" and
    "\<forall>k. map_of d3 k = (case map_of (rev kw) k of Some v \<Rightarrow> Some v | None \<Rightarrow> map_of d2 k)" and
    "inst_at s' a = Some (c, d5)" and
    "''id'' \<in> dom (map_of d5)" and "dom (map_of d3) \<subseteq> dom (map_of d5)" and
    "fst ` set (managers c) \<subseteq> dom (map_of d5)" and
    "\<forall>k. k \<notin> fst ` set (managers c) \<longrightarrow>
               map_of d5 k = (if k = ''id'' \<and> map_of d3 ''id'' = None then Some VNone else map_of d3 k)"
proof -
  obtain m where n: "n = Suc m" using ok by (cases n) simp_all
  from init_SucD [OF ok [unfolded n]] obtain p s1 s2 where
    a: "a = next_addr s" and
    g1: "init_data e a c data kw (fresh c gl s) = (Inr p, s1)" and
    g2: "set_from_dict (init m e) e a c p s1 = (Inr (), s2)" and
    g3: "init_finish e a c kw s2 = (Inr a, s')"
    by blast
  let ?d0 = "[(''_from_api'', VBool False), (''gitlab'', gl)]"
  have i0: "inst_at (fresh c gl s) a = Some (c, ?d0)" by (simp add: a fresh_facts)
  have lt0: "a < next_addr (fresh c gl s)" by (simp add: a fresh_facts)
  have pl: "payload e c gl data kw s = Inr p"
    by (rule init_data_payload [OF g1 [unfolded a]])
  have st1: "step_ok a {''_from_api''} (fresh c gl s) s1"
    using init_data_step [OF lt0, where e=e and c=c and data=data and kw=kw] g1 by simp
  from step_okD(3) [OF st1 i0] obtain d1 where
    d1: "inst_at s1 a = Some (c, d1)" "dom (map_of ?d0) \<subseteq> dom (map_of d1)"
        "\<forall>k. k \<notin> {''_from_api''} \<longrightarrow> map_of d1 k = map_of ?d0 k"
    by blast
  have lt1: "a < next_addr s1" by (rule step_ok_next [OF st1 lt0])
  have st2: "step_ok a (payload_keys p) s1 s2"
    using set_from_dict_step [OF init_ctor_frame lt1, where e=e and c=c and data=p and n1=m and e1=e] g2 by simp
  from step_okD(3) [OF st2 d1(1)] obtain d2 where
    d2: "inst_at s2 a = Some (c, d2)" "dom (map_of d1) \<subseteq> dom (map_of d2)"
        "\<forall>k. k \<notin> payload_keys p \<longrightarrow> map_of d2 k = map_of d1 k"
    by blast
  from set_from_dict_dom [OF init_ctor_frame lt1 d1(1) g2] d2(1)
  have pk: "payload_keys p \<subseteq> dom (map_of d2)" by simp
  have base: "{''_from_api'', ''gitlab''} \<union> payload_keys p \<subseteq> dom (map_of d2)"
  proof -
    have "{''_from_api'', ''gitlab''} \<subseteq> dom (map_of ?d0)" by simp
    then show ?thesis using d1(2) d2(2) pk by blast
  qed
  have lt2: "a < next_addr s2" by (rule step_ok_next [OF st2 lt1])
  have d2': "\<forall>k. k \<notin> {''_from_api''} \<union> payload_keys p \<longrightarrow> map_of d2 k = map_of ?d0 k"
    using d1(3) d2(3) by simp
  let ?s3 = "set_kwargs a kw s2"
  from set_kwargs_value [OF d2(1), of kw] obtain d3 where
    d3: "inst_at ?s3 a = Some (c, d3)"
        "\<forall>k. map_of d3 k = (case map_of (rev kw) k of Some v \<Rightarrow> Some v | None \<Rightarrow> map_of d2 k)"
    by blast
  have lt3: "a < next_addr ?s3" by (rule step_ok_next [OF set_kwargs_step lt2])
  let ?s4 = "if hasattr ?s3 a ''id'' then ?s3 else setattr a ''id'' VNone ?s3"
  let ?d4 = "if map_of d3 ''id'' = None then AList.update ''id'' VNone d3 else d3"
  have i4: "inst_at ?s4 a = Some (c, ?d4)"
    using d3(1) by (simp add: hasattr_iff [OF d3(1)] inst_at_setattr)
  have lt4: "a < next_addr ?s4" using lt3 by (simp add: next_setattr)
  have v4: "\<forall>k. map_of ?d4 k = (if k = ''id'' \<and> map_of d3 ''id'' = None then Some VNone else map_of d3 k)"
    by (simp add: update_conv')
  have s': "s' = snd (set_managers e a (managers c) ?s4)"
    using g3 init_finish_snd [of e a c kw s2] by simp
  have g5: "set_managers e a (managers c) ?s4 = (Inr (), s')"
  proof -
    obtain r s5 where g: "set_managers e a (managers c) ?s4 = (r, s5)" by force
    then show ?thesis using g3 by (cases r) (simp_all add: init_finish_def Let_def)
  qed
  have st5: "step_ok a (fst ` set (managers c)) ?s4 s'"
    unfolding s' by (rule set_managers_step [OF lt4])
  from step_okD(3) [OF st5 i4] obtain d5 where
    d5: "inst_at s' a = Some (c, d5)" "dom (map_of ?d4) \<subseteq> dom (map_of d5)"
        "\<forall>k. k \<notin> fst ` set (managers c) \<longrightarrow> map_of d5 k = map_of ?d4 k"
    by blast
  from set_managers_dom [OF lt4 i4 g5] d5(1)
  have mg: "fst ` set (managers c) \<subseteq> dom (map_of d5)" by simp
  have id5: "''id'' \<in> dom (map_of d5)"
  proof -
    have "''id'' \<in> dom (map_of ?d4)" using v4 by (auto simp: dom_def)
    then show ?thesis using d5(2) by blast
  qed
  have sub: "dom (map_of d3) \<subseteq> dom (map_of d5)"
  proof -
    have "dom (map_of d3) \<subseteq> dom (map_of ?d4)" by (auto simp: update_conv')
    then show ?thesis using d5(2) by blast
  qed
  have v5: "\<forall>k. k \<notin> fst ` set (managers c) \<longrightarrow>
               map_of d5 k = (if k = ''id'' \<and> map_of d3 ''id'' = None then Some VNone else map_of d3 k)"
    using d5(3) v4 by simp
  have lt5: "a < next_addr s'" by (rule step_ok_next [OF st5 lt4])
  show ?thesis
    by (rule that [OF a lt5 pl d2' base d3(2) d5(1) id5 sub mg v5])
qed

lemma map_of_rev_dom: "map_of (rev kw) k \<noteq> None \<longleftrightarrow> k \<in> fst ` set kw"
  by (simp add: map_of_eq_None_iff)

lemma init_final:
  assumes ok: "init n e c gl data kw s = (Inr a, s')"
  obtains p d where
    "a = next_addr s" and "a < next_addr s'" and "payload e c gl data kw s = Inr p" and
    "inst_at s' a = Some (c, d)" and
    "dom (map_of d) = {''id'', ''_from_api'', ''gitlab''} \<union> payload_keys p \<union> fst ` set kw \<union> fst ` set (managers c)" and
    "\<forall>k v. map_of (rev kw) k = Some v \<longrightarrow> k \<notin> fst ` set (managers c) \<longrightarrow> map_of d k = Some v" and
    "''id'' \<notin> payload_keys p \<union> fst ` set kw \<union> fst ` set (managers c) \<longrightarrow> map_of d ''id'' = Some VNone"
proof -
  from ok obtain p d2 d3 d5 where
    a: "a = next_addr s" "a < next_addr s'" and
    pl: "payload e c gl data kw s = Inr p" and
    d2: "\<forall>k. k \<notin> {''_from_api''} \<union> payload_keys p \<longrightarrow>
               map_of d2 k = map_of [(''_from_api'', VBool False), (''gitlab'', gl)] k" and
    base: "{''_from_api'', ''gitlab''} \<union> payload_keys p \<subseteq> dom (map_of d2)" and
    d3: "\<forall>k. map_of d3 k = (case map_of (rev kw) k of Some v \<Rightarrow> Some v | None \<Rightarrow> map_of d2 k)" and
    i5: "inst_at s' a = Some (c, d5)" and
    id5: "''id'' \<in> dom (map_of d5)" and
    sub: "dom (map_of d3) \<subseteq> dom (map_of d5)" and
    mg: "fst ` set (managers c) \<subseteq> dom (map_of d5)" and
    v5: "\<forall>k. k \<notin> fst ` set (managers c) \<longrightarrow>
               map_of d5 k = (if k = ''id'' \<and> map_of d3 ''id'' = None then Some VNone else map_of d3 k)"
    by (rule init_stages)
  have in3: "\<And>k. k \<in> dom (map_of d3) \<longleftrightarrow> k \<in> fst ` set kw \<or> k \<in> dom (map_of d2)"
  proof -
    fix k
    have e: "map_of d3 k = (case map_of (rev kw) k of Some v \<Rightarrow> Some v | None \<Rightarrow> map_of d2 k)"
      using d3 by (rule spec)
    show "k \<in> dom (map_of d3) \<longleftrightarrow> k \<in> fst ` set kw \<or> k \<in> dom (map_of d2)"
    proof (cases "map_of (rev kw) k")
      case None
      then have "k \<notin> fst ` set kw" using map_of_rev_dom [of kw k] by simp
      then show ?thesis using e None by (simp add: domIff)
    next
      case (Some v)
      then have "k \<in> fst ` set kw" using map_of_rev_dom [of kw k] by simp
      then show ?thesis using e Some by (simp add: domIff)
    qed
  qed
  have in2: "\<And>k. k \<in> dom (map_of d2) \<longleftrightarrow> k \<in> {''_from_api'', ''gitlab''} \<union> payload_keys p"
  proof -
    fix k
    show "k \<in> dom (map_of d2) \<longleftrightarrow> k \<in> {''_from_api'', ''gitlab''} \<union> payload_keys p"
    proof (cases "k \<in> {''_from_api'', ''gitlab''} \<union> payload_keys p")
      case True
      have "k \<in> dom (map_of d2)" by (rule subsetD [OF base True])
      then show ?thesis using True by simp
    next
      case False
      then have "k \<notin> {''_from_api''} \<union> payload_keys p" by simp
      then have "map_of d2 k = map_of [(''_from_api'', VBool False), (''gitlab'', gl)] k"
        using d2 by simp
      then have "map_of d2 k = None" using False by simp
      then show ?thesis using False by (simp add: domIff)
    qed
  qed
  have in5: "\<And>k. k \<in> dom (map_of d5) \<longleftrightarrow>
            k \<in> {''id'', ''_from_api'', ''gitlab''} \<union> payload_keys p \<union> fst ` set kw \<union> fst ` set (managers c)"
  proof -
    fix k
    show "k \<in> dom (map_of d5) \<longleftrightarrow>
            k \<in> {''id'', ''_from_api'', ''gitlab''} \<union> payload_keys p \<union> fst ` set kw \<union> fst ` set (managers c)"
    proof (cases "k \<in> fst ` set (managers c)")
      case True
      have "k \<in> dom (map_of d5)" by (rule subsetD [OF mg True])
      then show ?thesis using True by simp
    next
      case False
      have v: "map_of d5 k = (if k = ''id'' \<and> map_of d3 ''id'' = None then Some VNone else map_of d3 k)"
        using v5 False by simp
      show ?thesis
      proof (cases "k = ''id''")
        case True
        then show ?thesis using id5 by simp
      next
        case nid: False
        have "k \<in> dom (map_of d5) \<longleftrightarrow> k \<in> dom (map_of d3)" using v nid by (simp add: domIff)
        then show ?thesis using in3 [of k] in2 [of k] nid False by auto
      qed
    qed
  qed
  have dom5: "dom (map_of d5) = {''id'', ''_from_api'', ''gitlab''} \<union> payload_keys p \<union> fst ` set kw \<union> fst ` set (managers c)"
    by (rule set_eqI) (rule in5)
  have kwv: "\<forall>k v. map_of (rev kw) k = Some v \<longrightarrow> k \<notin> fst ` set (managers c) \<longrightarrow> map_of d5 k = Some v"
  proof (intro allI impI)
    fix k v assume kv: "map_of (rev kw) k = Some v" and nm: "k \<notin> fst ` set (managers c)"
    have "map_of d3 k = (case map_of (rev kw) k of Some v \<Rightarrow> Some v | None \<Rightarrow> map_of d2 k)"
      using d3 by (rule spec)
    then have 3: "map_of d3 k = Some v" using kv by simp
    have "map_of d5 k = (if k = ''id'' \<and> map_of d3 ''id'' = None then Some VNone else map_of d3 k)"
      using v5 nm by simp
    then show "map_of d5 k = Some v" using 3 by (cases "k = ''id''") simp_all
  qed
  have idn: "''id'' \<notin> payload_keys p \<union> fst ` set kw \<union> fst ` set (managers c) \<longrightarrow> map_of d5 ''id'' = Some VNone"
  proof
    assume h: "''id'' \<notin> payload_keys p \<union> fst ` set kw \<union> fst ` set (managers c)"
    then have "''id'' \<notin> dom (map_of d3)" using in3 [of "''id''"] in2 [of "''id''"] by simp
    then have n3: "map_of d3 ''id'' = None" by (simp add: domIff)
    have "map_of d5 ''id'' = (if ''id'' = ''id'' \<and> map_of d3 ''id'' = None then Some VNone else map_of d3 ''id'')"
      using v5 h by simp
    then show "map_of d5 ''id'' = Some VNone" using n3 by simp
  qed
  show ?thesis
    by (rule that [OF a pl i5 dom5 kwv idn])
qed

section \<open>Facts about the example store\<close>

lemma store_inst:
  "inst_at store 1 = Some (UserKey, [(''_from_api'', VBool True), (''gitlab'', VRef 0), (''id'', VInt 7), (''title'', VStr ''laptop'')])"
  "inst_at store 2 = Some (UserKey, [(''_from_api'', VBool True), (''gitlab'', VRef 0), (''id'', VInt 8), (''title'', VStr ''desktop'')])"
  "inst_at store 3 = Some (Project, [(''_from_api'', VBool True), (''gitlab'', VRef 0), (''id'', VInt 12), (''name'', VStr ''demo''), (''files'', VRef 4)])"
  "inst_at store 5 = Some (Issue, [(''_from_api'', VBool False), (''gitlab'', VRef 0), (''title'', VStr ''broken''), (''id'', VNone)])"
  "inst_at store 6 = Some (User, [(''_from_api'', VBool True), (''gitlab'', VRef 0), (''id'', VInt 5), (''username'', VStr ''ann''), (''keys'', VRef 7)])"
  "inst_at store 8 = Some (ProjectBranch, [(''_from_api'', VBool True), (''gitlab'', VRef 0), (''name'', VStr ''master''), (''project_id'', VInt 12), (''protected'', VBool True), (''id'', VNone)])"
  "inst_at store 9 = Some (ProjectTrigger, [(''_from_api'', VBool False), (''gitlab'', VRef 0), (''project_id'', VInt 12), (''id'', VNone)])"
  by (simp_all add: inst_at_def store_def)

lemma store_mgr:
  "mgr_at store 4 = Some (ProjectFile, VRef 0, Some 3, [(''project_id'', ''id'')])"
  "mgr_at store 7 = Some (UserKey, VRef 0, Some 6, [(''user_id'', ''id'')])"
  by (simp_all add: mgr_at_def store_def)

section \<open>Constructions that succeed\<close>








section \<open>The arguments of a manager call\<close>

lemma map_of_setdefault:
  "map_of (setdefault k v d) x = (case map_of d x of Some w \<Rightarrow> Some w | None \<Rightarrow> if x = k then Some v else None)"
  by (cases "map_of d k") (auto simp: setdefault_def map_add_def split: option.splits)

lemma parent_args_merged:
  "inst_at s p = Some (c, d) \<Longrightarrow> \<forall>l\<in>set links. snd l \<in> dom (map_of d) \<Longrightarrow>
   \<exists>args. parent_args s p links kw = Inr args \<and> (\<forall>k. map_of args k = merged_args kw links d k)"
proof (induction links arbitrary: kw)
  case Nil
  then show ?case by (simp add: merged_args_def split: option.splits)
next
  case (Cons l links)
  obtain attr pa where l: "l = (attr, pa)" by force
  obtain v where v: "map_of d pa = Some v" using Cons.prems(2) l by auto
  have g: "getattr s p pa = Inr v" using Cons.prems(1) v by (simp add: getattr_def)
  from Cons.IH [OF Cons.prems(1), of "setdefault attr v kw"] Cons.prems(2)
  obtain args where
    a: "parent_args s p links (setdefault attr v kw) = Inr args"
       "\<forall>k. map_of args k = merged_args (setdefault attr v kw) links d k"
    by auto
  have "\<forall>k. map_of args k = merged_args kw (l # links) d k"
  proof
    fix k
    show "map_of args k = merged_args kw (l # links) d k"
      using a(2) [rule_format, of k] v l
      by (simp add: merged_args_def map_of_setdefault split: option.splits)
  qed
  then show ?case using a(1) g l by simp
qed


lemma set_parent_args_merged:
  assumes m: "mgr_at s m = Some (oc, gl, Some p, links)"
    and i: "inst_at s p = Some (c, d)"
    and l: "\<forall>l\<in>set links. snd l \<in> dom (map_of d)"
  shows "\<exists>args. set_parent_args s m kw = Inr args \<and> (\<forall>k. map_of args k = merged_args kw links d k)"
  using parent_args_merged [OF i l, of kw] by (simp add: set_parent_args_def m)

lemma mgr_at_setattr:
  assumes m: "mgr_at s m = Some x"
  shows "mgr_at (setattr p k v s) m = Some x"
proof (cases "inst_at s p")
  case None
  then show ?thesis using m by (simp add: setattr_def)
next
  case (Some cd)
  then have "m \<noteq> p" using m by (auto simp: mgr_at_def inst_at_def split: option.splits hobj.splits)
  then show ?thesis using m by (simp add: mgr_at_def heap_setattr_other)
qed

section \<open>The dict of an instance\<close>

lemma as_dict_items_visible: "[] \<notin> fst ` set d \<Longrightarrow> as_dict_items s d = Inr (visible s d)"
proof (induction d)
  case Nil
  then show ?case by (simp add: visible_def)
next
  case (Cons kv d)
  obtain k v where kv: "kv = (k, v)" by force
  have ne: "k \<noteq> []" using Cons.prems kv by auto
  then obtain ch rest where k: "k = ch # rest" by (cases k) auto
  have ih: "as_dict_items s d = Inr (visible s d)" using Cons by auto
  show ?case
    using ih by (simp add: kv k visible_def underscore_prefixed_def)
qed

section \<open>The loop of the serialization\<close>





section \<open>The scan of a listing\<close>


section \<open>Guards before the network\<close>

text \<open>
  C7. For a resource class whose \<open>canList\<close> is false or whose \<open>_url\<close> is undefined, the
  class method \<open>list\<close> raises \<open>NotImplementedError\<close> and leaves the state, with the
  record of the calls made to the connection, as it was. The same holds for \<open>list\<close> of a
  manager of such a class once its parent-derived arguments are resolved; when they
  cannot be (the parent lacks a linked attribute) the error is that of the lookup, and
  the connection is not called either.
\<close>

theorem list_disallowed_not_implemented:
  "(\<not> canList c \<or> url c = None \<longrightarrow> cls_list e c gl kw s = (Inl NotImplementedError, s)) \<and>
   (\<not> canList c \<or> url c = None \<longrightarrow> mgr_at s m = Some (c, gl, p, margs) \<longrightarrow>
      mgr_list e m kw s =
        (case set_parent_args s m kw of
           Inl err \<Rightarrow> (Inl err, s)
         | Inr args \<Rightarrow> (Inl NotImplementedError, s)))"
  by (auto simp: cls_list_def mgr_list_def split: sum.splits)

theorem list_disallowed_not_implemented_witness:
  "\<not> canList ProjectFile \<and>
   cls_list scripted ProjectFile (VRef 0) [] store = (Inl NotImplementedError, store) \<and>
   mgr_list scripted 4 [] store = (Inl NotImplementedError, store)"
proof -
  have h1: "\<not> canList ProjectFile"
    by (simp add: ProjectFile_def GitlabObject_def)
  have h3: "set_parent_args store 4 [] = Inr [(''project_id'', VInt 12)]"
    by (simp add: set_parent_args_def store_mgr store_inst getattr_def setdefault_def)
  show ?thesis
    using list_disallowed_not_implemented [of ProjectFile scripted "VRef 0" "[]" store 4 "Some 3" "[(''project_id'', ''id'')]"]
      h1 h3 store_mgr(1)
    by simp
qed




section \<open>What the constructor leaves on the instance\<close>

text \<open>
  C3, as the code has it. After a successful construction the attribute named \<open>id\<close> is
  present, and it is \<open>None\<close> when neither the payload nor the keyword arguments (nor a
  manager name) supply it. The declared identifier attribute \<open>idAttr\<close> is present
  exactly when it is \<open>id\<close> (or one of the two names every instance has), or a key of
  the payload, a keyword argument or a manager name: \<open>__init__\<close> tests
  \<open>hasattr(self, "id")\<close>, not \<open>idAttr\<close>.
\<close>

theorem init_sets_id:
  assumes ok: "init n e c gl data kw s = (Inr a, s')"
  shows "hasattr s' a ''id'' \<and>
         (idAttr c = ''id'' \<longrightarrow> hasattr s' a (idAttr c)) \<and>
         (\<forall>p. payload e c gl data kw s = Inr p \<longrightarrow>
            (hasattr s' a (idAttr c) \<longleftrightarrow>
               idAttr c \<in> {''id'', ''_from_api'', ''gitlab''} \<union> payload_keys p \<union> fst ` set kw \<union> fst ` set (managers c)) \<and>
            (''id'' \<notin> payload_keys p \<union> fst ` set kw \<union> fst ` set (managers c) \<longrightarrow>
               getattr s' a ''id'' = Inr VNone))"
proof -
  from ok obtain p d where
    pl: "payload e c gl data kw s = Inr p" and
    i: "inst_at s' a = Some (c, d)" and
    dm: "dom (map_of d) = {''id'', ''_from_api'', ''gitlab''} \<union> payload_keys p \<union> fst ` set kw \<union> fst ` set (managers c)" and
    idn: "''id'' \<notin> payload_keys p \<union> fst ` set kw \<union> fst ` set (managers c) \<longrightarrow> map_of d ''id'' = Some VNone"
    by (rule init_final)
  have has: "\<And>k. hasattr s' a k \<longleftrightarrow> k \<in> dom (map_of d)"
    by (simp add: hasattr_iff [OF i] domIff)
  have 1: "hasattr s' a ''id''" by (simp add: has dm)
  have 2: "idAttr c = ''id'' \<longrightarrow> hasattr s' a (idAttr c)" using 1 by simp
  have 3: "hasattr s' a (idAttr c) \<longleftrightarrow>
               idAttr c \<in> {''id'', ''_from_api'', ''gitlab''} \<union> payload_keys p \<union> fst ` set kw \<union> fst ` set (managers c)"
    by (simp only: has dm)
  have 4: "''id'' \<notin> payload_keys p \<union> fst ` set kw \<union> fst ` set (managers c) \<longrightarrow>
               getattr s' a ''id'' = Inr VNone"
    using idn by (simp add: getattr_iff [OF i])
  show ?thesis using 1 2 3 4 pl by simp
qed

theorem init_sets_id_witness:
  "fst (init (Suc 0) scripted ProjectTrigger (VRef 0) (VDict [(''project_id'', VInt 12)]) [] store) = Inr 10 \<and>
   hasattr (snd (init (Suc 0) scripted ProjectTrigger (VRef 0) (VDict [(''project_id'', VInt 12)]) [] store)) 10 ''id'' \<and>
   getattr (snd (init (Suc 0) scripted ProjectTrigger (VRef 0) (VDict [(''project_id'', VInt 12)]) [] store)) 10 ''id'' = Inr VNone \<and>
   \<not> hasattr (snd (init (Suc 0) scripted ProjectTrigger (VRef 0) (VDict [(''project_id'', VInt 12)]) [] store)) 10 ''token''"
proof -
  let ?r = "init (Suc 0) scripted ProjectTrigger (VRef 0) (VDict [(''project_id'', VInt 12)]) [] store"
  have f: "fst ?r = Inr 10"
    by (simp add: alloc_def setattr_def inst_at_def init_data_def set_from_dict_def set_item_def
        get_object_def init_finish_def hasattr_def getattr_def ProjectTrigger_def GitlabObject_def store_def)
  have h: "?r = (Inr 10, snd ?r)"
    using f by (metis prod.collapse)
  have p: "payload scripted ProjectTrigger (VRef 0) (VDict [(''project_id'', VInt 12)]) [] store
             = Inr (VDict [(''project_id'', VInt 12)])"
    by (simp add: payload_def)
  have m: "managers ProjectTrigger = []" "idAttr ProjectTrigger = ''token''"
    by (simp_all add: ProjectTrigger_def GitlabObject_def)
  show ?thesis
    using init_sets_id [OF h] f p m by (simp add: payload_keys_def)
qed

text \<open>
  The claim C3 as stated (the declared \<open>idAttr\<close> is always present) fails for a class
  that overrides \<open>idAttr\<close>: a \<open>ProjectTrigger\<close> built from a dict without \<open>token\<close> has no
  attribute \<open>token\<close>.
\<close>

theorem trigger_without_token:
  "fst (init (Suc 0) scripted ProjectTrigger (VRef 0) (VDict [(''project_id'', VInt 12)]) [] store) = Inr 10 \<and>
   \<not> hasattr (snd (init (Suc 0) scripted ProjectTrigger (VRef 0) (VDict [(''project_id'', VInt 12)]) [] store)) 10
        (idAttr ProjectTrigger)"
  by (simp add: alloc_def setattr_def inst_at_def init_data_def set_from_dict_def set_item_def
      get_object_def init_finish_def hasattr_def getattr_def ProjectTrigger_def GitlabObject_def store_def)



section \<open>Methods of single resources: results\<close>





section \<open>Managers\<close>

text \<open>
  C5. A manager with a parent instance resolves the parent-derived parameters when the
  call is made: for a linked name the caller did not give, the value is the one the
  parent's attribute has in the state of the call, so after an assignment to that
  attribute of the parent it is the assigned value; a parameter the caller gave keeps
  the caller's value. \<open>get\<close>, \<open>list\<close>, \<open>create\<close> and \<open>delete\<close> of the manager pass exactly
  these arguments on, after the permission flag of the wrapped class.
\<close>

theorem manager_args_at_call_time:
  assumes m: "mgr_at s m = Some (oc, gl, Some p, links)"
    and i: "inst_at s p = Some (c, d)"
    and l: "\<forall>l\<in>set links. snd l \<in> dom (map_of d)"
  shows "(\<exists>args. set_parent_args s m kw = Inr args \<and>
            (\<forall>k. map_of args k = merged_args kw links d k) \<and>
            mgr_get n e m i0 kw s =
              (if canGet oc = CanGetFalse then (Inl NotImplementedError, s) else cls_get n e oc gl i0 args s) \<and>
            mgr_list e m kw s =
              (if \<not> canList oc then (Inl NotImplementedError, s) else cls_list e oc gl args s) \<and>
            mgr_create n e m data kw s =
              (if \<not> canCreate oc then (Inl NotImplementedError, s) else cls_create n e oc gl data args s) \<and>
            mgr_delete e m i0 kw s =
              (if \<not> canDelete oc then (Inl NotImplementedError, s)
               else (case gl_delete e gl (VStr (cname oc)) i0 args s of
                       (Inl err, s1) \<Rightarrow> (Inl err, s1)
                     | (Inr r, s1) \<Rightarrow> (Inr VNone, s1)))) \<and>
         (\<forall>pa v. \<exists>args. set_parent_args (setattr p pa v s) m kw = Inr args \<and>
            (\<forall>k. map_of args k = merged_args kw links (AList.update pa v d) k))"
proof -
  from set_parent_args_merged [OF m i l, of kw] obtain args where
    a: "set_parent_args s m kw = Inr args" "\<forall>k. map_of args k = merged_args kw links d k"
    by blast
  have ops: "mgr_get n e m i0 kw s =
              (if canGet oc = CanGetFalse then (Inl NotImplementedError, s) else cls_get n e oc gl i0 args s)"
    "mgr_list e m kw s =
              (if \<not> canList oc then (Inl NotImplementedError, s) else cls_list e oc gl args s)"
    "mgr_create n e m data kw s =
              (if \<not> canCreate oc then (Inl NotImplementedError, s) else cls_create n e oc gl data args s)"
    "mgr_delete e m i0 kw s =
              (if \<not> canDelete oc then (Inl NotImplementedError, s)
               else (case gl_delete e gl (VStr (cname oc)) i0 args s of
                       (Inl err, s1) \<Rightarrow> (Inl err, s1)
                     | (Inr r, s1) \<Rightarrow> (Inr VNone, s1)))"
    by (simp_all add: mgr_get_def mgr_list_def mgr_create_def mgr_delete_def m a(1) del: init.simps)
  have mut: "\<forall>pa v. \<exists>args. set_parent_args (setattr p pa v s) m kw = Inr args \<and>
            (\<forall>k. map_of args k = merged_args kw links (AList.update pa v d) k)"
  proof (intro allI)
    fix pa v
    have m2: "mgr_at (setattr p pa v s) m = Some (oc, gl, Some p, links)"
      by (rule mgr_at_setattr [OF m])
    have i2: "inst_at (setattr p pa v s) p = Some (c, AList.update pa v d)"
      by (rule inst_at_setattr [OF i])
    have l2: "\<forall>l\<in>set links. snd l \<in> dom (map_of (AList.update pa v d))"
      using l by (auto simp: update_conv')
    show "\<exists>args. set_parent_args (setattr p pa v s) m kw = Inr args \<and>
            (\<forall>k. map_of args k = merged_args kw links (AList.update pa v d) k)"
      by (rule set_parent_args_merged [OF m2 i2 l2])
  qed
  show ?thesis
    using a ops mut by blast
qed

theorem manager_args_at_call_time_witness:
  "set_parent_args store 7 [] = Inr [(''user_id'', VInt 5)] \<and>
   mgr_list scripted 7 [] store = cls_list scripted UserKey (VRef 0) [(''user_id'', VInt 5)] store \<and>
   set_parent_args (setattr 6 ''id'' (VInt 9) store) 7 [] = Inr [(''user_id'', VInt 9)] \<and>
   set_parent_args store 7 [(''user_id'', VInt 1)] = Inr [(''user_id'', VInt 1)]"
proof -
  have l: "\<forall>l\<in>set [(''user_id'', ''id'')].
             snd l \<in> dom (map_of [(''_from_api'', VBool True), (''gitlab'', VRef 0), (''id'', VInt 5), (''username'', VStr ''ann''), (''keys'', VRef 7)])"
    by simp
  have a: "set_parent_args store 7 [] = Inr [(''user_id'', VInt 5)]"
    by (simp add: set_parent_args_def store_mgr store_inst getattr_def setdefault_def)
  have b: "mgr_list scripted 7 [] store = cls_list scripted UserKey (VRef 0) [(''user_id'', VInt 5)] store"
    using manager_args_at_call_time [OF store_mgr(2) store_inst(5) l, of "[]" 0 scripted VNone VNone] a
    by (auto simp: UserKey_def GitlabObject_def)
  have c: "set_parent_args (setattr 6 ''id'' (VInt 9) store) 7 [] = Inr [(''user_id'', VInt 9)]"
    by (simp add: set_parent_args_def mgr_at_setattr [OF store_mgr(2)] getattr_def
        inst_at_setattr [OF store_inst(5)] setdefault_def)
  have d: "set_parent_args store 7 [(''user_id'', VInt 1)] = Inr [(''user_id'', VInt 1)]"
    by (simp add: set_parent_args_def store_mgr store_inst getattr_def setdefault_def)
  show ?thesis
    by (intro conjI a b c d)
qed

section \<open>Comparison of instances\<close>

text \<open>
  C4. For two instances (with no empty attribute name, on which \<open>k[0]\<close> would raise),
  \<open>__eq__\<close> is false when their classes differ, and otherwise is Python's \<open>==\<close> on
  their attribute mappings restricted to the attributes that are not managers and do
  not begin with an underscore; for the class \<open>User\<close> the entry \<open>password\<close> is removed
  from both sides first. \<open>__ne__\<close> is the negation of \<open>__eq__\<close>, and comparing with
  anything that is not an instance is false.
\<close>

theorem eq_compares_visible_attributes:
  assumes a: "inst_at s a = Some (c, d)" and b: "inst_at s b = Some (c', d')"
    and na: "[] \<notin> fst ` set d" and nb: "[] \<notin> fst ` set d'"
  shows "obj_eq e s a (VRef b) =
           (if c \<noteq> c' then Inr False
            else if cname c = ''User''
              then py_eq e s (VDict (AList.delete ''password'' (visible s d)))
                             (VDict (AList.delete ''password'' (visible s d')))
            else py_eq e s (VDict (visible s d)) (VDict (visible s d'))) \<and>
         obj_ne e s a (VRef b) =
           (case obj_eq e s a (VRef b) of Inl err \<Rightarrow> Inl err | Inr r \<Rightarrow> Inr (\<not> r)) \<and>
         (\<forall>v. (\<forall>x. v = VRef x \<longrightarrow> inst_at s x = None) \<longrightarrow> obj_eq e s a v = Inr False)"
proof -
  have da: "as_dict s a = Inr (visible s d)"
    by (simp add: as_dict_def a as_dict_items_visible [OF na])
  have db: "as_dict s b = Inr (visible s d')"
    by (simp add: as_dict_def b as_dict_items_visible [OF nb])
  have st: "same_type s a (VRef b) \<longleftrightarrow> c = c'"
    by (simp add: same_type_def a b)
  have 1: "obj_eq e s a (VRef b) =
           (if c \<noteq> c' then Inr False
            else if cname c = ''User''
              then py_eq e s (VDict (AList.delete ''password'' (visible s d)))
                             (VDict (AList.delete ''password'' (visible s d')))
            else py_eq e s (VDict (visible s d)) (VDict (visible s d')))"
    by (simp add: obj_eq_def a User_eq_def GitlabObject_eq_def st da db)
  have 2: "obj_ne e s a (VRef b) =
           (case obj_eq e s a (VRef b) of Inl err \<Rightarrow> Inl err | Inr r \<Rightarrow> Inr (\<not> r))"
    by (simp add: obj_ne_def)
  have 3: "\<forall>v. (\<forall>x. v = VRef x \<longrightarrow> inst_at s x = None) \<longrightarrow> obj_eq e s a v = Inr False"
  proof (intro allI impI)
    fix v assume h: "\<forall>x. v = VRef x \<longrightarrow> inst_at s x = None"
    show "obj_eq e s a v = Inr False"
    proof (cases v)
      case (VRef x)
      then have "inst_at s x = None" using h by simp
      then have "\<not> same_type s a v" using VRef by (simp add: same_type_def a)
      then show ?thesis using VRef by (simp add: obj_eq_def a User_eq_def GitlabObject_eq_def)
    qed (simp_all add: obj_eq_def a User_eq_def GitlabObject_eq_def)
  qed
  show ?thesis by (intro conjI 1 2 3)
qed

theorem eq_compares_visible_attributes_witness:
  "obj_eq scripted users 1 (VRef 2) = Inr True \<and>
   obj_ne scripted users 1 (VRef 2) = Inr False \<and>
   obj_eq scripted users 1 (VRef 5) = Inr False \<and>
   obj_eq scripted users 1 (VInt 5) = Inr False"
proof -
  let ?d1 = "[(''_from_api'', VBool True), (''gitlab'', VRef 0), (''id'', VInt 5),
              (''username'', VStr ''ann''), (''password'', VStr ''first''), (''keys'', VRef 3)]"
  let ?d2 = "[(''_from_api'', VBool False), (''gitlab'', VRef 0), (''id'', VInt 5),
              (''username'', VStr ''ann''), (''password'', VStr ''second''), (''keys'', VRef 4)]"
  let ?d5 = "[(''_from_api'', VBool True), (''gitlab'', VRef 0), (''id'', VInt 5)]"
  have i1: "inst_at users 1 = Some (User, ?d1)" and i2: "inst_at users 2 = Some (User, ?d2)"
    and i5: "inst_at users 5 = Some (Issue, ?d5)"
    by (simp_all add: inst_at_def users_def)
  have n1: "[] \<notin> fst ` set ?d1" and n2: "[] \<notin> fst ` set ?d2" and n5: "[] \<notin> fst ` set ?d5"
    by simp_all
  have v1: "visible users ?d1 = [(''gitlab'', VRef 0), (''id'', VInt 5), (''username'', VStr ''ann''), (''password'', VStr ''first'')]"
    and v2: "visible users ?d2 = [(''gitlab'', VRef 0), (''id'', VInt 5), (''username'', VStr ''ann''), (''password'', VStr ''second'')]"
    by (simp_all add: visible_def underscore_prefixed_def is_manager_def users_def)
  have cn: "cname User = ''User''" "User \<noteq> Issue"
    by (auto simp: User_def Issue_def GitlabObject_def)
  have a: "obj_eq scripted users 1 (VRef 2) = Inr True"
    using eq_compares_visible_attributes [OF i1 i2 n1 n2, of scripted]
    by (simp only: v1 v2 cn) (simp add: scripted_def)
  have b: "obj_ne scripted users 1 (VRef 2) = Inr False"
    using eq_compares_visible_attributes [OF i1 i2 n1 n2, of scripted] a by simp
  have c: "obj_eq scripted users 1 (VRef 5) = Inr False"
    using eq_compares_visible_attributes [OF i1 i5 n1 n5, of scripted] cn by simp
  have d: "obj_eq scripted users 1 (VInt 5) = Inr False"
    using eq_compares_visible_attributes [OF i1 i2 n1 n2, of scripted] by simp
  show ?thesis by (intro conjI a b c d)
qed

section \<open>The request body\<close>






section \<open>Retrieval from the listing\<close>



end
